theory Spec2Isabelle
  imports Main "HOL-Library.Sublist" "HOL-Library.List_Lexorder" "HOL-Library.Char_ord"
begin

section \<open>The event scraper \<open>check_events.py\<close>\<close>

text \<open>
  The program fetches a page, extracts one event per registration link, filters the events
  against the identities stored in a state file, and publishes the new ones to an RSS feed
  and an optional webhook. This theory embeds the functions of \<open>check_events.py\<close> in HOL.

  Python strings are modelled as \<open>string\<close>; the functions below only ever distinguish
  ASCII characters. Exceptions (subclasses of \<open>Exception\<close>) are values of type \<open>exn\<close>,
  and a function that can raise returns \<open>exn + 'a\<close>. Output to stdout and stderr is not
  modelled.
\<close>

datatype exn =
    ValueError      \<comment> \<open>raised by \<open>urllib.parse\<close>\<close>
  | LibraryError    \<comment> \<open>any exception raised inside a BeautifulSoup call\<close>

subsection \<open>String operations of Python\<close>

definition lstrip :: "string \<Rightarrow> string \<Rightarrow> string" where
  \<comment> \<open>\<open>s.lstrip(chars)\<close>\<close>
  "lstrip chars s = dropWhile (\<lambda>c. c \<in> set chars) s"

definition strip :: "string \<Rightarrow> string \<Rightarrow> string" where
  \<comment> \<open>\<open>s.strip(chars)\<close>\<close>
  "strip chars s = rev (lstrip chars (rev (lstrip chars s)))"

definition remove_chr :: "char \<Rightarrow> string \<Rightarrow> string" where
  \<comment> \<open>\<open>s.replace(b, "")\<close> for a one-character \<open>b\<close>\<close>
  "remove_chr b s = filter (\<lambda>c. c \<noteq> b) s"

definition replace_chr :: "char \<Rightarrow> string \<Rightarrow> string \<Rightarrow> string" where
  \<comment> \<open>\<open>s.replace(b, new)\<close> for a one-character \<open>b\<close>\<close>
  "replace_chr b new s = concat (map (\<lambda>c. if c = b then new else [c]) s)"

fun find_from :: "char \<Rightarrow> string \<Rightarrow> nat \<Rightarrow> nat option" where
  \<comment> \<open>\<open>s.find(c, start)\<close>: the index of the first \<open>c\<close> at or after \<open>start\<close>; \<open>None\<close> is Python's -1\<close>
  "find_from c [] start = None"
| "find_from c (x # xs) 0 = (if x = c then Some 0 else map_option Suc (find_from c xs 0))"
| "find_from c (x # xs) (Suc n) = map_option Suc (find_from c xs n)"

definition find_chr :: "char \<Rightarrow> string \<Rightarrow> nat option" where
  \<comment> \<open>\<open>s.find(c)\<close>\<close>
  "find_chr c s = find_from c s 0"

definition rfind_chr :: "char \<Rightarrow> string \<Rightarrow> nat option" where
  \<comment> \<open>\<open>s.rfind(c)\<close>: the index of the last \<open>c\<close>\<close>
  "rfind_chr c s =
     (case find_chr c (rev s) of None \<Rightarrow> None | Some j \<Rightarrow> Some (length s - 1 - j))"

definition split_once :: "char \<Rightarrow> string \<Rightarrow> string \<times> string" where
  \<comment> \<open>\<open>s.split(c, 1)\<close> when \<open>c\<close> occurs in \<open>s\<close>: the text before the first \<open>c\<close> and the text after it\<close>
  "split_once c s = (takeWhile (\<lambda>x. x \<noteq> c) s, drop 1 (dropWhile (\<lambda>x. x \<noteq> c) s))"

fun split_chr :: "char \<Rightarrow> string \<Rightarrow> string list" where
  \<comment> \<open>\<open>s.split(c)\<close> for a one-character separator\<close>
  "split_chr c [] = [[]]"
| "split_chr c (x # xs) =
     (if x = c then [] # split_chr c xs
      else (case split_chr c xs of [] \<Rightarrow> [[x]] | p # ps \<Rightarrow> (x # p) # ps))"

fun join :: "string \<Rightarrow> string list \<Rightarrow> string" where
  \<comment> \<open>\<open>sep.join(parts)\<close>\<close>
  "join sep [] = []"
| "join sep [p] = p"
| "join sep (p # q # ps) = p @ sep @ join sep (q # ps)"

definition ascii_upper :: string where
  "ascii_upper = ''ABCDEFGHIJKLMNOPQRSTUVWXYZ''"

definition ascii_lower :: string where
  "ascii_lower = ''abcdefghijklmnopqrstuvwxyz''"

definition lower_chr :: "char \<Rightarrow> char" where
  "lower_chr c = (case map_of (zip ascii_upper ascii_lower) c of Some d \<Rightarrow> d | None \<Rightarrow> c)"

definition lower :: "string \<Rightarrow> string" where
  \<comment> \<open>\<open>s.lower()\<close>, used on scheme names only, which are ASCII\<close>
  "lower s = map lower_chr s"

definition isascii_alpha :: "char \<Rightarrow> bool" where
  \<comment> \<open>\<open>c.isascii() and c.isalpha()\<close>\<close>
  "isascii_alpha c = (c \<in> set (ascii_lower @ ascii_upper))"

definition isascii :: "string \<Rightarrow> bool" where
  \<comment> \<open>\<open>s.isascii()\<close>\<close>
  "isascii s = list_all (\<lambda>c. (of_char c :: nat) < 128) s"

subsection \<open>\<open>urllib.parse\<close> (CPython 3.11.10)\<close>

text \<open>
  \<open>normalize_url\<close> calls \<open>urljoin\<close>, \<open>urlparse\<close> and \<open>urlunparse\<close> of the standard library.
  They are modelled after \<open>Lib/urllib/parse.py\<close> of CPython 3.11.10, for \<open>str\<close> arguments and
  \<open>allow_fragments=True\<close> (the only way the program calls them). Two checks of \<open>urlsplit\<close>
  reach into other modules (\<open>ipaddress\<close>, \<open>re\<close>, \<open>unicodedata\<close>); they are parameters, collected
  in the record \<open>pylib\<close>, and every result below holds for all their values.
\<close>

record pylib =
  bracketed_host_invalid :: "string \<Rightarrow> bool"
    \<comment> \<open>whether \<open>_check_bracketed_host(hostname)\<close> raises \<open>ValueError\<close>\<close>
  nfkc :: "string \<Rightarrow> string"
    \<comment> \<open>\<open>unicodedata.normalize('NFKC', s)\<close>\<close>

definition uses_relative :: "string list" where
  "uses_relative = ['''', ''ftp'', ''http'', ''gopher'', ''nntp'', ''imap'',
     ''wais'', ''file'', ''https'', ''shttp'', ''mms'',
     ''prospero'', ''rtsp'', ''rtsps'', ''rtspu'', ''sftp'',
     ''svn'', ''svn+ssh'', ''ws'', ''wss'']"

definition uses_netloc :: "string list" where
  "uses_netloc = ['''', ''ftp'', ''http'', ''gopher'', ''nntp'', ''telnet'',
     ''imap'', ''wais'', ''file'', ''mms'', ''https'', ''shttp'',
     ''snews'', ''prospero'', ''rtsp'', ''rtsps'', ''rtspu'', ''rsync'',
     ''svn'', ''svn+ssh'', ''sftp'', ''nfs'', ''git'', ''git+ssh'',
     ''ws'', ''wss'']"

definition uses_params :: "string list" where
  "uses_params = ['''', ''ftp'', ''hdl'', ''prospero'', ''http'', ''imap'',
     ''https'', ''shttp'', ''rtsp'', ''rtsps'', ''rtspu'', ''sip'',
     ''sips'', ''mms'', ''sftp'', ''tel'']"

definition scheme_chars :: string where
  "scheme_chars = ascii_lower @ ascii_upper @ ''0123456789'' @ ''+-.''"

definition WHATWG_C0_CONTROL_OR_SPACE :: string where
  \<comment> \<open>the characters with codes 0 to 32\<close>
  "WHATWG_C0_CONTROL_OR_SPACE = map char_of [0 ..< 33 :: nat]"

definition UNSAFE_URL_BYTES_TO_REMOVE :: string where
  "UNSAFE_URL_BYTES_TO_REMOVE = [CHR 0x09, CHR 0x0D, CHR 0x0A]"

definition remove_unsafe :: "string \<Rightarrow> string" where
  \<comment> \<open>\<open>for b in _UNSAFE_URL_BYTES_TO_REMOVE: url = url.replace(b, "")\<close>\<close>
  "remove_unsafe s = fold remove_chr UNSAFE_URL_BYTES_TO_REMOVE s"

definition splitnetloc :: "string \<Rightarrow> nat \<Rightarrow> string \<times> string" where
  \<comment> \<open>\<open>_splitnetloc(url, start)\<close>: the earliest of the delimiters \<open>/?#\<close> at or after \<open>start\<close> ends the netloc\<close>
  "splitnetloc url start =
     (let delim = fold (\<lambda>c delim. case find_from c url start of
                                     Some wdelim \<Rightarrow> min delim wdelim
                                   | None \<Rightarrow> delim)
                       ''/?#'' (length url)
      in (drop start (take delim url), drop delim url))"

definition checknetloc :: "pylib \<Rightarrow> string \<Rightarrow> bool" where
  \<comment> \<open>whether \<open>_checknetloc(netloc)\<close> raises \<open>ValueError\<close>\<close>
  "checknetloc L netloc =
     (if netloc = [] \<or> isascii netloc then False
      else (let n = remove_chr CHR ''?'' (remove_chr CHR ''#''
                      (remove_chr CHR '':'' (remove_chr CHR ''@'' netloc)));
                netloc2 = nfkc L n
            in if n = netloc2 then False
               else list_ex (\<lambda>c. c \<in> set netloc2) ''/?#@:''))"

definition urlsplit :: "pylib \<Rightarrow> string \<Rightarrow> string \<Rightarrow>
    exn + (string \<times> string \<times> string \<times> string \<times> string)" where
  \<comment> \<open>\<open>urlsplit(url, scheme)\<close>: the 5-tuple (scheme, netloc, path, query, fragment)\<close>
  "urlsplit L url0 scheme0 =
     (let url1 = remove_unsafe (lstrip WHATWG_C0_CONTROL_OR_SPACE url0);
          scheme1 = remove_unsafe (strip WHATWG_C0_CONTROL_OR_SPACE scheme0);
          (scheme, url2) =
            (case find_chr CHR '':'' url1 of
               None \<Rightarrow> (scheme1, url1)
             | Some i \<Rightarrow>
                 if 0 < i \<and> isascii_alpha (hd url1)
                    \<and> list_all (\<lambda>c. c \<in> set scheme_chars) (take i url1)
                 then (lower (take i url1), drop (Suc i) url1)
                 else (scheme1, url1));
          has_netloc = (take 2 url2 = ''//'');
          (netloc, url3) = (if has_netloc then splitnetloc url2 2 else ('''', url2))
      in if has_netloc \<and>
            ((CHR ''['' \<in> set netloc \<and> CHR '']'' \<notin> set netloc) \<or>
             (CHR '']'' \<in> set netloc \<and> CHR ''['' \<notin> set netloc))
         then Inl ValueError
         else if has_netloc \<and> CHR ''['' \<in> set netloc \<and> CHR '']'' \<in> set netloc
                 \<and> bracketed_host_invalid L
                      (fst (split_once CHR '']'' (snd (split_once CHR ''['' netloc))))
         then Inl ValueError
         else (let (url4, fragment) =
                     (if CHR ''#'' \<in> set url3 then split_once CHR ''#'' url3 else (url3, ''''));
                   (url5, query) =
                     (if CHR ''?'' \<in> set url4 then split_once CHR ''?'' url4 else (url4, ''''))
               in if checknetloc L netloc then Inl ValueError
                  else Inr (scheme, netloc, url5, query, fragment)))"

definition urlunsplit :: "string \<times> string \<times> string \<times> string \<times> string \<Rightarrow> string" where
  "urlunsplit components =
     (case components of (scheme, netloc, url0, query, fragment) \<Rightarrow>
        (let url1 = (if netloc \<noteq> [] \<or> (scheme \<noteq> [] \<and> scheme \<in> set uses_netloc)
                        \<or> take 2 url0 = ''//''
                     then ''//'' @ netloc @
                          (if url0 \<noteq> [] \<and> take 1 url0 \<noteq> ''/'' then ''/'' @ url0 else url0)
                     else url0);
             url2 = (if scheme \<noteq> [] then scheme @ '':'' @ url1 else url1);
             url3 = (if query \<noteq> [] then url2 @ ''?'' @ query else url2)
         in if fragment \<noteq> [] then url3 @ ''#'' @ fragment else url3))"

definition urlunparse ::
    "string \<times> string \<times> string \<times> string \<times> string \<times> string \<Rightarrow> string" where
  "urlunparse components =
     (case components of (scheme, netloc, url, params, query, fragment) \<Rightarrow>
        urlunsplit (scheme, netloc, (if params \<noteq> [] then url @ '';'' @ params else url),
                    query, fragment))"

record parse_result =
  scheme :: string
  netloc :: string
  path :: string
  params :: string
  query :: string
  fragment :: string

definition splitparams :: "string \<Rightarrow> string \<times> string" where
  \<comment> \<open>\<open>_splitparams(url)\<close>: the parameters start at the first \<open>;\<close> of the last path segment.
      Without any \<open>/\<close> and \<open>;\<close> (\<open>urlparse\<close> never calls it so) the index is Python's -1\<close>
  "splitparams url =
     (case rfind_chr CHR ''/'' url of
        Some j \<Rightarrow>
          (case find_from CHR '';'' url j of
             None \<Rightarrow> (url, '''')
           | Some i \<Rightarrow> (take i url, drop (Suc i) url))
      | None \<Rightarrow>
          (case find_chr CHR '';'' url of
             None \<Rightarrow> (butlast url, url)
           | Some i \<Rightarrow> (take i url, drop (Suc i) url)))"

definition urlparse :: "pylib \<Rightarrow> string \<Rightarrow> string \<Rightarrow> exn + parse_result" where
  "urlparse L url scheme0 =
     (case urlsplit L url scheme0 of
        Inl e \<Rightarrow> Inl e
      | Inr (scheme', netloc', url1, query', fragment') \<Rightarrow>
          (let (url2, params') =
                 (if scheme' \<in> set uses_params \<and> CHR '';'' \<in> set url1
                  then splitparams url1 else (url1, ''''))
           in Inr \<lparr>scheme = scheme', netloc = netloc', path = url2, params = params',
                   query = query', fragment = fragment'\<rparr>))"

definition set_inner :: "string list \<Rightarrow> string list" where
  \<comment> \<open>\<open>segments[1:-1] = filter(None, segments[1:-1])\<close>: drop the empty segments other than
      the first and the last\<close>
  "set_inner segments =
     (if length segments \<le> 2 then segments
      else hd segments # filter (\<lambda>s. s \<noteq> []) (butlast (tl segments)) @ [last segments])"

fun resolve :: "string list \<Rightarrow> string list \<Rightarrow> string list" where
  \<comment> \<open>the loop over \<open>segments\<close> of \<open>urljoin\<close>, \<open>resolved_path\<close> being the accumulator\<close>
  "resolve resolved_path [] = resolved_path"
| "resolve resolved_path (seg # segs) =
     (if seg = ''..'' then resolve (butlast resolved_path) segs
      else if seg = ''.'' then resolve resolved_path segs
      else resolve (resolved_path @ [seg]) segs)"

definition urljoin :: "pylib \<Rightarrow> string \<Rightarrow> string \<Rightarrow> exn + string" where
  "urljoin L base url =
     (if base = [] then Inr url
      else if url = [] then Inr base
      else case urlparse L base '''' of
        Inl e \<Rightarrow> Inl e
      | Inr b \<Rightarrow>
         (case urlparse L url (scheme b) of
            Inl e \<Rightarrow> Inl e
          | Inr u \<Rightarrow>
              if scheme u \<noteq> scheme b \<or> scheme u \<notin> set uses_relative then Inr url
              else if scheme u \<in> set uses_netloc \<and> netloc u \<noteq> []
              then Inr (urlunparse (scheme u, netloc u, path u, params u, query u, fragment u))
              else (let netloc' = (if scheme u \<in> set uses_netloc then netloc b else netloc u)
                    in if path u = [] \<and> params u = []
                       then Inr (urlunparse (scheme u, netloc', path b, params b,
                                   (if query u = [] then query b else query u), fragment u))
                       else (let base_parts0 = split_chr CHR ''/'' (path b);
                                 base_parts = (if last base_parts0 \<noteq> []
                                               then butlast base_parts0 else base_parts0);
                                 segments = (if take 1 (path u) = ''/''
                                             then split_chr CHR ''/'' (path u)
                                             else set_inner (base_parts @ split_chr CHR ''/'' (path u)));
                                 resolved_path0 = resolve [] segments;
                                 resolved_path = (if last segments \<in> {''.'', ''..''}
                                                  then resolved_path0 @ ['''']
                                                  else resolved_path0);
                                 joined = join ''/'' resolved_path
                             in Inr (urlunparse (scheme u, netloc',
                                       (if joined = [] then ''/'' else joined),
                                       params u, query u, fragment u))))))"

subsection \<open>\<open>normalize_url\<close>\<close>

definition normalize_url :: "pylib \<Rightarrow> string \<Rightarrow> string \<Rightarrow> exn + (string \<times> string)" where
  "normalize_url L url base_url =
     (case urljoin L base_url url of
        Inl e \<Rightarrow> Inl e
      | Inr absolute_url \<Rightarrow>
          (case urlparse L absolute_url '''' of
             Inl e \<Rightarrow> Inl e
           | Inr parsed \<Rightarrow>
               Inr (urlunparse (scheme parsed, netloc parsed, path parsed, '''', '''', ''''),
                    absolute_url)))"

subsection \<open>Configuration\<close>

text \<open>
  The module-level constants read from the environment. \<open>STATE_FILE\<close> and \<open>FEED_FILE\<close> name
  two different files, which are the fields \<open>state_file\<close> and \<open>feed_file\<close> of the world
  below; \<open>USER_AGENT\<close> and \<open>REQUEST_TIMEOUT\<close> only shape the request.
\<close>

record config =
  TARGET_URL :: string
  REG_LINK_SELECTOR :: string
  TITLE_SELECTOR :: string
  DATE_SELECTOR :: string
  WEBHOOK_URL :: string

subsection \<open>\<open>extract_event_data\<close>\<close>

text \<open>
  The parsed page is used through five BeautifulSoup operations. They are the fields of the
  record \<open>'n soup\<close>, over an arbitrary type \<open>'n\<close> of element nodes; each of them may raise.
\<close>

record 'n soup =
  select :: "string \<Rightarrow> exn + 'n list"
    \<comment> \<open>\<open>soup.select(selector)\<close>, in document order\<close>
  get :: "'n \<Rightarrow> string \<Rightarrow> exn + string option"
    \<comment> \<open>\<open>element.get(name)\<close>: the value of an attribute, \<open>None\<close> when it is absent\<close>
  parents :: "'n \<Rightarrow> exn + 'n list"
    \<comment> \<open>\<open>element.parents\<close>, the nearest ancestor first\<close>
  select_one :: "'n \<Rightarrow> string \<Rightarrow> exn + 'n option"
    \<comment> \<open>\<open>element.select_one(selector)\<close>\<close>
  get_text :: "'n \<Rightarrow> exn + string"
    \<comment> \<open>\<open>element.get_text(strip=True)\<close>\<close>

record event =
  event_id :: string     \<comment> \<open>key \<open>'id'\<close>\<close>
  event_link :: string   \<comment> \<open>key \<open>'link'\<close>\<close>
  event_title :: string  \<comment> \<open>key \<open>'title'\<close>\<close>
  event_date :: string   \<comment> \<open>key \<open>'date'\<close>\<close>

fun search_title :: "'n soup \<Rightarrow> string \<Rightarrow> 'n list \<Rightarrow> exn + string option" where
  \<comment> \<open>the loop over the ancestors that looks for a title; \<open>None\<close> when no ancestor has one\<close>
  "search_title S sel [] = Inr None"
| "search_title S sel (ancestor # rest) =
     (case select_one S ancestor sel of
        Inl e \<Rightarrow> Inl e
      | Inr None \<Rightarrow> search_title S sel rest
      | Inr (Some title_elem) \<Rightarrow>
          (case get_text S title_elem of Inl e \<Rightarrow> Inl e | Inr t \<Rightarrow> Inr (Some t)))"

fun search_date :: "'n soup \<Rightarrow> string \<Rightarrow> 'n list \<Rightarrow> exn + string option" where
  \<comment> \<open>the loop over the ancestors that looks for a date: the \<open>datetime\<close> attribute of the
      first match if it is non-empty, its text otherwise\<close>
  "search_date S sel [] = Inr None"
| "search_date S sel (ancestor # rest) =
     (case select_one S ancestor sel of
        Inl e \<Rightarrow> Inl e
      | Inr None \<Rightarrow> search_date S sel rest
      | Inr (Some date_elem) \<Rightarrow>
          (case get S date_elem ''datetime'' of
             Inl e \<Rightarrow> Inl e
           | Inr (Some d) \<Rightarrow>
               if d \<noteq> [] then Inr (Some d)
               else (case get_text S date_elem of Inl e \<Rightarrow> Inl e | Inr t \<Rightarrow> Inr (Some t))
           | Inr None \<Rightarrow>
               (case get_text S date_elem of Inl e \<Rightarrow> Inl e | Inr t \<Rightarrow> Inr (Some t))))"

definition link_text_or_untitled :: "'n soup \<Rightarrow> 'n \<Rightarrow> exn + string" where
  \<comment> \<open>\<open>link_element.get_text(strip=True) or "Untitled Event"\<close>\<close>
  "link_text_or_untitled S link_element =
     (case get_text S link_element of
        Inl e \<Rightarrow> Inl e
      | Inr t \<Rightarrow> Inr (if t \<noteq> [] then t else ''Untitled Event''))"

definition extract_event_data_try ::
    "config \<Rightarrow> pylib \<Rightarrow> 'n soup \<Rightarrow> 'n \<Rightarrow> string \<Rightarrow> exn + event option" where
  \<comment> \<open>the body of the \<open>try\<close> block of \<open>extract_event_data\<close>\<close>
  "extract_event_data_try cfg L S link_element base_url =
     (case get S link_element ''href'' of
        Inl e \<Rightarrow> Inl e
      | Inr href \<Rightarrow>
         (let link_href = (case href of None \<Rightarrow> '''' | Some h \<Rightarrow> h)
          in if link_href = [] then Inr None
             else case normalize_url L link_href base_url of
               Inl e \<Rightarrow> Inl e
             | Inr (stable_id, full_link) \<Rightarrow>
             (case parents S link_element of
               Inl e \<Rightarrow> Inl e
             | Inr ancestors \<Rightarrow>
             (case search_title S (TITLE_SELECTOR cfg) ancestors of
               Inl e \<Rightarrow> Inl e
             | Inr found_title \<Rightarrow>
             (case (case found_title of
                      None \<Rightarrow> link_text_or_untitled S link_element
                    | Some t \<Rightarrow> if t \<noteq> [] then Inr t
                                else link_text_or_untitled S link_element) of
               Inl e \<Rightarrow> Inl e
             | Inr title \<Rightarrow>
             (case parents S link_element of
               Inl e \<Rightarrow> Inl e
             | Inr ancestors' \<Rightarrow>
             (case search_date S (DATE_SELECTOR cfg) ancestors' of
               Inl e \<Rightarrow> Inl e
             | Inr found_date \<Rightarrow>
                 (let date = (case found_date of
                                None \<Rightarrow> ''Date TBD''
                              | Some d \<Rightarrow> if d \<noteq> [] then d else ''Date TBD'')
                  in Inr (Some \<lparr>event_id = stable_id, event_link = full_link,
                                 event_title = title, event_date = date\<rparr>)))))))))"

definition extract_event_data ::
    "config \<Rightarrow> pylib \<Rightarrow> 'n soup \<Rightarrow> 'n \<Rightarrow> string \<Rightarrow> event option" where
  \<comment> \<open>\<open>except Exception\<close>: whatever the body raises, the result is \<open>None\<close>\<close>
  "extract_event_data cfg L S link_element base_url =
     (case extract_event_data_try cfg L S link_element base_url of
        Inl e \<Rightarrow> None
      | Inr r \<Rightarrow> r)"

subsection \<open>The world outside the process\<close>

text \<open>
  What a run reads and changes: the two files, the clock and the webhook. The state file
  holds whatever \<open>set(json.load(f))\<close> makes of it: a collection of identity strings, or
  content that makes the load raise (\<open>Unreadable\<close>). The feed file holds the text written
  to it (on a system whose line separator is the line feed, writing in text mode changes
  nothing).
  A write either succeeds or raises, and then leaves the file in a condition chosen by the
  environment.
\<close>

datatype weekday = Mon | Tue | Wed | Thu | Fri | Sat | Sun

datatype month = Jan | Feb | Mar | Apr | May | Jun | Jul | Aug | Sep | Oct | Nov | Dec

record datetime =
  dt_weekday :: weekday
  dt_day :: nat
  dt_month :: month
  dt_year :: nat
  dt_hour :: nat
  dt_minute :: nat
  dt_second :: nat

datatype state_content =
    Unreadable          \<comment> \<open>reading or decoding the file raises\<close>
  | Ids "string list"   \<comment> \<open>a JSON array of strings, as \<open>save_seen_events\<close> writes it\<close>

datatype 'a write_result =
    WriteOk
  | WriteFails "'a option"  \<comment> \<open>the write raises; the file is left with this content (\<open>None\<close>: no file)\<close>

record payload =
  payload_title :: string
  payload_link :: string
  payload_date :: string
  payload_timestamp :: datetime  \<comment> \<open>the time that \<open>isoformat()\<close> renders\<close>

record world =
  state_file :: "state_content option"    \<comment> \<open>\<open>STATE_FILE\<close>; \<open>None\<close> when it does not exist\<close>
  feed_file :: "string option"            \<comment> \<open>\<open>FEED_FILE\<close>; \<open>None\<close> when it does not exist\<close>
  state_write :: "state_content write_result"
  feed_read_fails :: bool
  feed_write :: "string write_result"
  clock :: "nat \<Rightarrow> datetime"              \<comment> \<open>the time returned by the n-th reading of the clock\<close>
  ticks :: nat                            \<comment> \<open>the number of readings so far\<close>
  webhook_fails :: "payload \<Rightarrow> bool"      \<comment> \<open>whether posting the payload raises\<close>
  posted :: "payload list"                \<comment> \<open>the payloads delivered to the webhook\<close>

definition utcnow :: "world \<Rightarrow> datetime \<times> world" where
  "utcnow w = (clock w (ticks w), w\<lparr>ticks := Suc (ticks w)\<rparr>)"

fun day_abbr :: "weekday \<Rightarrow> string" where
  "day_abbr Mon = ''Mon''" | "day_abbr Tue = ''Tue''" | "day_abbr Wed = ''Wed''"
| "day_abbr Thu = ''Thu''" | "day_abbr Fri = ''Fri''" | "day_abbr Sat = ''Sat''"
| "day_abbr Sun = ''Sun''"

fun month_abbr :: "month \<Rightarrow> string" where
  "month_abbr Jan = ''Jan''" | "month_abbr Feb = ''Feb''" | "month_abbr Mar = ''Mar''"
| "month_abbr Apr = ''Apr''" | "month_abbr May = ''May''" | "month_abbr Jun = ''Jun''"
| "month_abbr Jul = ''Jul''" | "month_abbr Aug = ''Aug''" | "month_abbr Sep = ''Sep''"
| "month_abbr Oct = ''Oct''" | "month_abbr Nov = ''Nov''" | "month_abbr Dec = ''Dec''"

definition digit :: "nat \<Rightarrow> char" where
  "digit n = ''0123456789'' ! (n mod 10)"

definition digits2 :: "nat \<Rightarrow> string" where
  "digits2 n = [digit (n div 10), digit n]"

definition digits4 :: "nat \<Rightarrow> string" where
  "digits4 n = [digit (n div 1000), digit (n div 100), digit (n div 10), digit n]"

definition strftime :: "datetime \<Rightarrow> string" where
  \<comment> \<open>\<open>t.strftime('%a, %d %b %Y %H:%M:%S +0000')\<close>, with the English names of the C locale\<close>
  "strftime t =
     day_abbr (dt_weekday t) @ '', '' @ digits2 (dt_day t) @ '' '' @ month_abbr (dt_month t)
     @ '' '' @ digits4 (dt_year t) @ '' '' @ digits2 (dt_hour t) @ '':''
     @ digits2 (dt_minute t) @ '':'' @ digits2 (dt_second t) @ '' +0000''"

subsection \<open>The seen-set store\<close>

definition load_seen_events :: "world \<Rightarrow> string set" where
  "load_seen_events w =
     (case state_file w of
        None \<Rightarrow> {}
      | Some Unreadable \<Rightarrow> {}
      | Some (Ids ids) \<Rightarrow> set ids)"

definition save_seen_events :: "string set \<Rightarrow> world \<Rightarrow> nat option \<times> world" where
  \<comment> \<open>the first component is \<open>Some n\<close> when the call ends in \<open>sys.exit(n)\<close>\<close>
  "save_seen_events seen_ids w =
     (case state_write w of
        WriteOk \<Rightarrow> (None, w\<lparr>state_file := Some (Ids (sorted_list_of_set seen_ids))\<rparr>)
      | WriteFails left \<Rightarrow> (Some 1, w\<lparr>state_file := left\<rparr>))"

subsection \<open>The webhook\<close>

definition post_to_webhook :: "config \<Rightarrow> event \<Rightarrow> world \<Rightarrow> world" where
  "post_to_webhook cfg event w =
     (if WEBHOOK_URL cfg = [] then w
      else (let (now, w1) = utcnow w;
                p = \<lparr>payload_title = event_title event, payload_link = event_link event,
                     payload_date = event_date event, payload_timestamp = now\<rparr>
            in if webhook_fails w1 p then w1 else w1\<lparr>posted := posted w1 @ [p]\<rparr>))"

subsection \<open>The RSS feed\<close>

definition escape :: "string \<Rightarrow> string" where
  \<comment> \<open>\<open>xml.sax.saxutils.escape(data)\<close>: three replacements, the ampersand first\<close>
  "escape data =
     replace_chr CHR ''<'' ''&lt;'' (replace_chr CHR ''>'' ''&gt;''
       (replace_chr CHR ''&'' ''&amp;'' data))"

definition generate_rss_item :: "event \<Rightarrow> world \<Rightarrow> string \<times> world" where
  \<open>generate_rss_item event w =
     (let title = escape (event_title event);
          link = escape (event_link event);
          date_str = escape (event_date event);
          (now, w') = utcnow w;
          pub_date = strftime now;
          description = escape (''Registration Date: '' @ date_str)
      in (''  <item>\<newline>    <title>'' @ title @ ''</title>\<newline>    <link>'' @ link
          @ ''</link>\<newline>    <description>'' @ description
          @ ''</description>\<newline>    <pubDate>'' @ pub_date
          @ ''</pubDate>\<newline>    <guid isPermaLink="true">'' @ link
          @ ''</guid>\<newline>  </item>'', w'))\<close>

fun generate_rss_items :: "event list \<Rightarrow> world \<Rightarrow> string list \<times> world" where
  \<comment> \<open>\<open>[generate_rss_item(event) for event in events]\<close>, each call reading the clock\<close>
  "generate_rss_items [] w = ([], w)"
| "generate_rss_items (event # events) w =
     (let (item, w1) = generate_rss_item event w;
          (items, w2) = generate_rss_items events w1
      in (item # items, w2))"

fun find_sub :: "string \<Rightarrow> string \<Rightarrow> nat option" where
  \<comment> \<open>\<open>s.find(sub)\<close>: the index of the first occurrence of \<open>sub\<close>; \<open>None\<close> is Python's -1\<close>
  "find_sub sub [] = (if sub = [] then Some 0 else None)"
| "find_sub sub (c # cs) =
     (if prefix sub (c # cs) then Some 0 else map_option Suc (find_sub sub cs))"

lemma find_sub_bound: "find_sub sub s = Some i \<Longrightarrow> i + length sub \<le> length s"
proof (induction s arbitrary: i)
  case Nil
  then show ?case by (simp split: if_splits)
next
  case (Cons c cs)
  show ?case
  proof (cases "prefix sub (c # cs)")
    case True
    with Cons.prems show ?thesis by (auto dest: prefix_length_le)
  next
    case False
    with Cons.prems obtain j where "find_sub sub cs = Some j" and "i = Suc j" by auto
    with Cons.IH show ?thesis by fastforce
  qed
qed

function split_str :: "string \<Rightarrow> string \<Rightarrow> string list" where
  \<comment> \<open>\<open>s.split(sep)\<close>; the program only splits on the literal \<open></item>\<close>, and the empty
      separator, on which Python raises, does not occur\<close>
  "split_str sep s =
     (if sep = [] then [s]
      else (case find_sub sep s of
              None \<Rightarrow> [s]
            | Some i \<Rightarrow> take i s # split_str sep (drop (i + length sep) s)))"
  by pat_completeness auto
termination
proof (relation "measure (\<lambda>(sep, s). length s)")
  show "wf (measure (\<lambda>(sep, s). length s))" by simp
next
  fix sep s :: string and i
  assume "sep \<noteq> []" and "find_sub sep s = Some i"
  then have "i + length sep \<le> length s" and "0 < length sep"
    by (auto dest: find_sub_bound)
  then have "length s - (i + length sep) < length s"
    by arith
  then show "((sep, drop (i + length sep) s), (sep, s)) \<in> measure (\<lambda>(sep, s). length s)"
    by simp
qed

declare split_str.simps [simp del]

fun universal_newlines :: "string \<Rightarrow> string" where
  \<comment> \<open>what \<open>f.read()\<close> returns for a file opened in text mode: every carriage return of
      the file, together with the line feed that may follow it, is read as one line feed\<close>
  "universal_newlines [] = []"
| "universal_newlines [c] = (if c = CHR 0x0D then [CHR 0x0A] else [c])"
| "universal_newlines (c # d # s) =
     (if c = CHR 0x0D
      then (if d = CHR 0x0A then CHR 0x0A # universal_newlines s
            else CHR 0x0A # universal_newlines (d # s))
      else c # universal_newlines (d # s))"

definition existing_items_of :: "string \<Rightarrow> string list" where
  \<comment> \<open>the items found in the content of an existing feed: the text from the first
      \<open><item>\<close> of every part before a \<open></item>\<close>\<close>
  "existing_items_of content =
     (let parts = split_str ''</item>'' content
      in concat (map (\<lambda>part. case find_sub ''<item>'' part of
                                None \<Rightarrow> []
                              | Some item_start \<Rightarrow> [drop item_start part @ ''</item>''])
                     (butlast parts)))"

definition read_existing_items :: "world \<Rightarrow> string list" where
  \<comment> \<open>no file, or a read that raises: no existing items\<close>
  "read_existing_items w =
     (case feed_file w of
        None \<Rightarrow> []
      | Some content \<Rightarrow>
          if feed_read_fails w then [] else existing_items_of (universal_newlines content))"

definition update_rss_feed :: "config \<Rightarrow> event list \<Rightarrow> world \<Rightarrow> nat option \<times> world" where
  \<comment> \<open>the first component is \<open>Some n\<close> when the call ends in \<open>sys.exit(n)\<close>\<close>
  \<open>update_rss_feed cfg new_events w =
     (if new_events = [] then (None, w)
      else (let existing_items = read_existing_items w;
                (new_items, w1) = generate_rss_items (rev new_events) w;
                all_items = new_items @ existing_items;
                feed_title = escape ''EUGLOH Course Events'';
                feed_link = escape (TARGET_URL cfg);
                feed_description = escape ''New course registration opportunities from EUGLOH'';
                (now, w2) = utcnow w1;
                build_date = strftime now;
                feed_content =
                  ''<?xml version="1.0" encoding="UTF-8"?>\<newline><rss version="2.0">\<newline>  <channel>\<newline>    <title>''
                  @ feed_title @ ''</title>\<newline>    <link>'' @ feed_link
                  @ ''</link>\<newline>    <description>'' @ feed_description
                  @ ''</description>\<newline>    <lastBuildDate>'' @ build_date
                  @ ''</lastBuildDate>\<newline>'' @ concat all_items
                  @ ''\<newline>  </channel>\<newline></rss>\<newline>''
            in case feed_write w2 of
                 WriteOk \<Rightarrow> (None, w2\<lparr>feed_file := Some feed_content\<rparr>)
               | WriteFails left \<Rightarrow> (Some 1, w2\<lparr>feed_file := left\<rparr>)))\<close>

subsection \<open>\<open>scrape_events\<close> and \<open>main\<close>\<close>

definition extract_events ::
    "config \<Rightarrow> pylib \<Rightarrow> 'n soup \<Rightarrow> 'n list \<Rightarrow> event list" where
  \<comment> \<open>the loop of \<open>scrape_events\<close> that collects the events of the link elements\<close>
  "extract_events cfg L S link_elements =
     concat (map (\<lambda>link_elem. case extract_event_data cfg L S link_elem (TARGET_URL cfg) of
                                 None \<Rightarrow> []
                               | Some event \<Rightarrow> [event])
                 link_elements)"

definition scrape_events ::
    "config \<Rightarrow> pylib \<Rightarrow> exn + 'n soup \<Rightarrow> world \<Rightarrow> nat + (event list \<times> string set)" where
  \<comment> \<open>\<open>page\<close> is the outcome of the request: an exception, or the parsed document.
      \<open>Inl n\<close>: the process ends with exit status \<open>n\<close>, by \<open>sys.exit(1)\<close> when the request
      fails, by an uncaught exception when \<open>soup.select\<close> raises\<close>
  "scrape_events cfg L page w =
     (case page of
        Inl e \<Rightarrow> Inl 1
      | Inr S \<Rightarrow>
          (case select S (REG_LINK_SELECTOR cfg) of
             Inl e \<Rightarrow> Inl 1
           | Inr link_elements \<Rightarrow>
               (let events = extract_events cfg L S link_elements;
                    seen_ids = load_seen_events w;
                    new_events = filter (\<lambda>e. event_id e \<notin> seen_ids) events
                in Inr (new_events, seen_ids))))"

fun process_new_events :: "config \<Rightarrow> event list \<Rightarrow> string set \<Rightarrow> world \<Rightarrow> string set \<times> world" where
  \<comment> \<open>the loop of \<open>main\<close> over the new events: post to the webhook, add to the seen set\<close>
  "process_new_events cfg [] seen_ids w = (seen_ids, w)"
| "process_new_events cfg (event # events) seen_ids w =
     process_new_events cfg events (insert (event_id event) seen_ids)
       (post_to_webhook cfg event w)"

definition main :: "config \<Rightarrow> pylib \<Rightarrow> exn + 'n soup \<Rightarrow> world \<Rightarrow> nat \<times> world" where
  \<comment> \<open>the exit status of the process and the world it leaves\<close>
  "main cfg L page w =
     (case scrape_events cfg L page w of
        Inl status \<Rightarrow> (status, w)
      | Inr (new_events, seen_ids) \<Rightarrow>
          if new_events \<noteq> [] then
            (let (seen_ids', w1) = process_new_events cfg new_events seen_ids w;
                 (exit1, w2) = update_rss_feed cfg new_events w1
             in case exit1 of
                  Some status \<Rightarrow> (status, w2)
                | None \<Rightarrow>
                    (let (exit2, w3) = save_seen_events seen_ids' w2
                     in case exit2 of Some status \<Rightarrow> (status, w3) | None \<Rightarrow> (0, w3)))
          else
            (let (exit2, w1) = save_seen_events seen_ids w
             in case exit2 of Some status \<Rightarrow> (status, w1) | None \<Rightarrow> (0, w1)))"

subsection \<open>A concrete page and world\<close>

text \<open>
  A page with four registration links, numbered 10, 20, 30 and 40, under the document
  root 1. Link 10 sits in a container 11 that also holds a headline 12 and a \<open>time\<close>
  element 13; link 20 has no \<open>href\<close>; the \<open>href\<close> of link 30 has an unclosed bracket; link 40
  has neither title, date nor text. The theorems are instantiated on it.
\<close>

definition example_pylib :: pylib where
  "example_pylib = \<lparr>bracketed_host_invalid = (\<lambda>hostname. False), nfkc = (\<lambda>s. s)\<rparr>"

definition example_config :: config where
  "example_config =
     \<lparr>TARGET_URL = ''https://x.org/courses/'',
      REG_LINK_SELECTOR = ''a.register'',
      TITLE_SELECTOR = ''h5.headline'',
      DATE_SELECTOR = ''time, .date'',
      WEBHOOK_URL = ''''\<rparr>"

definition example_soup :: "nat soup" where
  "example_soup =
     \<lparr>select = (\<lambda>selector. Inr [10, 20, 30, 40]),
      get = (\<lambda>n name. Inr
               (if name = ''href'' then
                  (if n = 10 then Some ''/reg?sid=123#top''
                   else if n = 30 then Some ''http://[::1''
                   else if n = 40 then Some ''more.html;v=2?utm=x''
                   else None)
                else if name = ''datetime'' \<and> n = 13 then Some ''2025-05-01''
                else None)),
      parents = (\<lambda>n. Inr (if n = 10 then [11, 1] else [1])),
      select_one = (\<lambda>n selector. Inr
               (if n = 11 \<and> selector = ''h5.headline'' then Some 12
                else if n = 11 \<and> selector = ''time, .date'' then Some 13
                else None)),
      get_text = (\<lambda>n. Inr (if n = 10 then ''Register''
                           else if n = 12 then ''Intro Bio''
                           else if n = 13 then ''May 1''
                           else ''''))\<rparr>"

definition example_time :: datetime where
  "example_time =
     \<lparr>dt_weekday = Thu, dt_day = 1, dt_month = May, dt_year = 2025,
      dt_hour = 12, dt_minute = 0, dt_second = 0\<rparr>"

definition example_world :: world where
  \<comment> \<open>a first run: neither file exists, every write succeeds\<close>
  "example_world =
     \<lparr>state_file = None, feed_file = None, state_write = WriteOk, feed_read_fails = False,
      feed_write = WriteOk, clock = (\<lambda>n. example_time\<lparr>dt_second := n\<rparr>), ticks = 0,
      webhook_fails = (\<lambda>p. False), posted = []\<rparr>"

definition example_event :: event where
  "example_event =
     \<lparr>event_id = ''https://x.org/reg'', event_link = ''https://x.org/reg?sid=123#top'',
      event_title = ''Intro Bio'', event_date = ''2025-05-01''\<rparr>"

definition example_event' :: event where
  "example_event' =
     \<lparr>event_id = ''https://x.org/courses/more.html'',
      event_link = ''https://x.org/courses/more.html;v=2?utm=x'',
      event_title = ''Untitled Event'', event_date = ''Date TBD''\<rparr>"

subsection \<open>Notions of the specification\<close>

definition entity_of :: "char \<Rightarrow> string" where
  \<comment> \<open>the entity reference that stands for a special character of XML; other characters
      stand for themselves\<close>
  "entity_of c =
     (if c = CHR ''&'' then ''&amp;''
      else if c = CHR ''<'' then ''&lt;''
      else if c = CHR ''>'' then ''&gt;''
      else [c])"







fun passes :: "string \<Rightarrow> string \<Rightarrow> bool" where
  \<comment> \<open>no occurrence of \<open>sep\<close> starts inside \<open>s\<close>, whatever text follows \<open>s\<close>\<close>
  "passes sep [] = True"
| "passes sep (c # s) = (\<not> prefix sep (c # s) \<and> \<not> prefix (c # s) sep \<and> passes sep s)"

definition from_item :: "string \<Rightarrow> string" where
  \<comment> \<open>a text from its first \<open><item>\<close> on\<close>
  "from_item part =
     (case find_sub ''<item>'' part of None \<Rightarrow> part | Some item_start \<Rightarrow> drop item_start part)"

definition rss_item_body :: "event \<Rightarrow> datetime \<Rightarrow> string" where
  \<comment> \<open>the entry of an event rendered at a given time, without its closing tag\<close>
  \<open>rss_item_body event now =
     ''  <item>\<newline>    <title>'' @ escape (event_title event)
     @ ''</title>\<newline>    <link>'' @ escape (event_link event)
     @ ''</link>\<newline>    <description>''
     @ escape (''Registration Date: '' @ escape (event_date event))
     @ ''</description>\<newline>    <pubDate>'' @ strftime now
     @ ''</pubDate>\<newline>    <guid isPermaLink="true">'' @ escape (event_link event)
     @ ''</guid>\<newline>  ''\<close>

definition feed_head :: "config \<Rightarrow> datetime \<Rightarrow> string" where
  \<comment> \<open>the text of a feed before its items\<close>
  \<open>feed_head cfg now =
     ''<?xml version="1.0" encoding="UTF-8"?>\<newline><rss version="2.0">\<newline>  <channel>\<newline>    <title>''
     @ escape ''EUGLOH Course Events'' @ ''</title>\<newline>    <link>'' @ escape (TARGET_URL cfg)
     @ ''</link>\<newline>    <description>''
     @ escape ''New course registration opportunities from EUGLOH''
     @ ''</description>\<newline>    <lastBuildDate>'' @ strftime now
     @ ''</lastBuildDate>\<newline>''\<close>

definition feed_tail :: string where
  \<comment> \<open>the text of a feed after its items\<close>
  "feed_tail = ''\<newline>  </channel>\<newline></rss>\<newline>''"

section \<open>Properties\<close>

subsection \<open>\<open>urlsplit\<close> in terms of \<open>takeWhile\<close> and \<open>dropWhile\<close>\<close>










subsection \<open>The identity does not depend on the query string and the fragment\<close>






















lemma urlsplit_error: "urlsplit L url scheme0 = Inl e \<Longrightarrow> e = ValueError"
  by (auto simp: urlsplit_def Let_def split_def split: if_splits)












subsection \<open>The identity of a URL of the common form\<close>








subsection \<open>The identity of an event\<close>






subsection \<open>What a run changes\<close>

lemma finite_load_seen_events: "finite (load_seen_events w)"
  by (simp add: load_seen_events_def split: option.splits state_content.splits)

lemma post_to_webhook_frame:
  "state_file (post_to_webhook cfg e w) = state_file w"
  "state_write (post_to_webhook cfg e w) = state_write w"
  "feed_file (post_to_webhook cfg e w) = feed_file w"
  "feed_write (post_to_webhook cfg e w) = feed_write w"
  "feed_read_fails (post_to_webhook cfg e w) = feed_read_fails w"
  by (simp_all add: post_to_webhook_def utcnow_def Let_def)

lemma process_new_events_seen:
  "fst (process_new_events cfg es seen w) = seen \<union> event_id ` set es"
  by (induction es arbitrary: seen w) auto

lemma process_new_events_frame:
  "state_file (snd (process_new_events cfg es seen w)) = state_file w"
  "state_write (snd (process_new_events cfg es seen w)) = state_write w"
  "feed_file (snd (process_new_events cfg es seen w)) = feed_file w"
  "feed_write (snd (process_new_events cfg es seen w)) = feed_write w"
  "feed_read_fails (snd (process_new_events cfg es seen w)) = feed_read_fails w"
  by (induction es arbitrary: seen w) (simp_all add: post_to_webhook_frame)

lemma generate_rss_item_world:
  "snd (generate_rss_item e w) = w\<lparr>ticks := Suc (ticks w)\<rparr>"
  by (simp add: generate_rss_item_def utcnow_def Let_def)

lemma generate_rss_items_world:
  "snd (generate_rss_items es w) = w\<lparr>ticks := ticks w + length es\<rparr>"
proof (induction es arbitrary: w)
  case Nil
  show ?case by simp
next
  case (Cons e es)
  have "snd (generate_rss_items (e # es) w)
          = snd (generate_rss_items es (snd (generate_rss_item e w)))"
    by (simp add: split_def Let_def)
  then show ?case
    by (simp add: Cons.IH generate_rss_item_world)
qed

lemma update_rss_feed_frame:
  "state_file (snd (update_rss_feed cfg es w)) = state_file w"
  "state_write (snd (update_rss_feed cfg es w)) = state_write w"
  by (simp_all add: update_rss_feed_def split_def Let_def utcnow_def generate_rss_items_world
      split: write_result.splits)

lemma update_rss_feed_exit:
  "fst (update_rss_feed cfg es w) =
     (if es = [] then None
      else case feed_write w of WriteOk \<Rightarrow> None | WriteFails left \<Rightarrow> Some 1)"
  by (simp add: update_rss_feed_def split_def Let_def utcnow_def generate_rss_items_world
      split: write_result.splits)

lemma save_seen_events_exit:
  "fst (save_seen_events seen w) =
     (case state_write w of WriteOk \<Rightarrow> None | WriteFails left \<Rightarrow> Some 1)"
  by (simp add: save_seen_events_def split: write_result.splits)

lemma save_seen_events_world:
  "state_write w = WriteOk \<Longrightarrow>
     state_file (snd (save_seen_events seen w)) = Some (Ids (sorted_list_of_set seen))"
  "feed_file (snd (save_seen_events seen w)) = feed_file w"
  by (simp_all add: save_seen_events_def split: write_result.splits)

lemma scrape_events_select:
  "select S (REG_LINK_SELECTOR cfg) = Inr link_elements \<Longrightarrow>
     scrape_events cfg L (Inr S) w
       = Inr (filter (\<lambda>e. event_id e \<notin> load_seen_events w)
                (extract_events cfg L S link_elements), load_seen_events w)"
  by (simp add: scrape_events_def Let_def)

lemma scrape_events_Inr:
  assumes "scrape_events cfg L page w = Inr (new_events, seen_ids)"
  shows "\<exists>S link_elements. page = Inr S
           \<and> select S (REG_LINK_SELECTOR cfg) = Inr link_elements
           \<and> new_events = filter (\<lambda>e. event_id e \<notin> load_seen_events w)
                              (extract_events cfg L S link_elements)
           \<and> seen_ids = load_seen_events w"
proof (cases page)
  case (Inl e)
  with assms show ?thesis by (simp add: scrape_events_def)
next
  case (Inr S)
  show ?thesis
  proof (cases "select S (REG_LINK_SELECTOR cfg)")
    case (Inl e)
    with assms \<open>page = Inr S\<close> show ?thesis by (simp add: scrape_events_def)
  next
    case (Inr link_elements)
    with assms \<open>page = Inr S\<close> show ?thesis
      by (simp add: scrape_events_select) blast
  qed
qed

lemma scrape_events_state_file:
  assumes "state_file w' = state_file w"
  shows "scrape_events cfg L page w' = scrape_events cfg L page w"
proof -
  from assms have "load_seen_events w' = load_seen_events w"
    by (simp add: load_seen_events_def)
  then show ?thesis
    by (simp add: scrape_events_def Let_def split: sum.splits)
qed

lemma scrape_events_Inl: "scrape_events cfg L page w = Inl status \<Longrightarrow> status = 1"
  by (cases page) (auto simp: scrape_events_def Let_def split: sum.splits)

lemma main_status:
  assumes "scrape_events cfg L page w = Inr (new_events, seen_ids)"
  shows "fst (main cfg L page w) =
           (if new_events \<noteq> [] \<and> feed_write w \<noteq> WriteOk then 1
            else if state_write w \<noteq> WriteOk then 1 else 0)"
  using assms
  by (auto simp: main_def split_def Let_def update_rss_feed_exit save_seen_events_exit
        process_new_events_frame update_rss_feed_frame
      split: option.splits write_result.splits if_splits)

lemma main_state_file:
  assumes "scrape_events cfg L page w = Inr (new_events, seen_ids)"
    and "fst (main cfg L page w) = 0"
  shows "state_file (snd (main cfg L page w))
           = Some (Ids (sorted_list_of_set (seen_ids \<union> event_id ` set new_events)))"
proof -
  from assms have ok: "state_write w = WriteOk"
    by (simp add: main_status split: if_splits)
  show ?thesis
  proof (cases "new_events = []")
    case True
    with assms(1) ok show ?thesis
      by (simp add: main_def split_def Let_def save_seen_events_exit save_seen_events_world)
  next
    case False
    with assms have "feed_write w = WriteOk"
      by (simp add: main_status split: if_splits)
    with assms(1) ok False show ?thesis
      using process_new_events_seen [of cfg new_events seen_ids w]
      by (simp add: main_def split_def Let_def save_seen_events_exit save_seen_events_world
          update_rss_feed_exit update_rss_feed_frame process_new_events_frame)
  qed
qed

lemma main_feed_file_no_new:
  assumes "scrape_events cfg L page w = Inr ([], seen_ids)"
  shows "feed_file (snd (main cfg L page w)) = feed_file w"
  using assms
  by (simp add: main_def split_def Let_def save_seen_events_world split: option.splits)

lemma main_ok_scraped:
  assumes "main cfg L page w = (0, w')"
  shows "\<exists>new_events seen_ids. scrape_events cfg L page w = Inr (new_events, seen_ids)"
proof (cases "scrape_events cfg L page w")
  case (Inl status)
  with assms scrape_events_Inl [OF Inl] show ?thesis by (simp add: main_def)
next
  case (Inr r)
  then show ?thesis by (cases r) auto
qed

lemma example_scrape:
  "scrape_events example_config example_pylib (Inr example_soup) example_world
     = Inr ([example_event, example_event'], {})"
  by code_simp

lemma example_main_status:
  "fst (main example_config example_pylib (Inr example_soup) example_world) = 0"
  by (simp add: main_status [OF example_scrape]) (simp add: example_world_def)

subsection \<open>Deduplication against the seen set\<close>



subsection \<open>Idempotence\<close>

text \<open>
  Claim C3. After a run that ends with exit status 0, a second run on the same page, in any
  world whose state file is the one the first run left, finds no new event.
\<close>

theorem second_run_finds_nothing:
  assumes "main cfg L page w = (0, w1)" and "state_file w2 = state_file w1"
  shows "\<exists>seen_ids. scrape_events cfg L page w2 = Inr ([], seen_ids)"
proof -
  from main_ok_scraped [OF assms(1)] obtain new_events seen_ids where
    sc: "scrape_events cfg L page w = Inr (new_events, seen_ids)"
    by blast
  from scrape_events_Inr [OF sc] obtain S link_elements where
    *: "page = Inr S" "select S (REG_LINK_SELECTOR cfg) = Inr link_elements"
       "new_events = filter (\<lambda>e. event_id e \<notin> load_seen_events w)
                       (extract_events cfg L S link_elements)"
       "seen_ids = load_seen_events w"
    by blast
  from assms(1) have "fst (main cfg L page w) = 0" and "snd (main cfg L page w) = w1"
    by simp_all
  with main_state_file [OF sc] have
    "state_file w1 = Some (Ids (sorted_list_of_set (seen_ids \<union> event_id ` set new_events)))"
    by simp
  moreover have "finite (seen_ids \<union> event_id ` set new_events)"
    using *(4) by (simp add: finite_load_seen_events)
  ultimately have seen2: "load_seen_events w2 = seen_ids \<union> event_id ` set new_events"
    using assms(2) by (simp add: load_seen_events_def)
  have "filter (\<lambda>e. event_id e \<notin> load_seen_events w2)
          (extract_events cfg L S link_elements) = []"
    unfolding seen2 filter_empty_conv using *(3,4) by auto
  with scrape_events_select [OF *(2), of L w2] *(1) show ?thesis
    by simp
qed

theorem second_run_finds_nothing_witness:
  "\<exists>seen_ids. scrape_events example_config example_pylib (Inr example_soup)
       (snd (main example_config example_pylib (Inr example_soup) example_world))
     = Inr ([], seen_ids)"
proof -
  have "main example_config example_pylib (Inr example_soup) example_world
          = (0, snd (main example_config example_pylib (Inr example_soup) example_world))"
    using example_main_status by (simp add: prod_eq_iff)
  then show ?thesis
    by (rule second_run_finds_nothing) simp
qed

subsection \<open>Monotonicity of the seen set\<close>

text \<open>
  Claim C4. When a run ends with exit status 0, the seen set stored in the state file at
  the end contains the seen set that was loaded at the start; it is the loaded set together
  with the identities of the new events of the run.
\<close>

theorem seen_set_grows:
  assumes "main cfg L page w = (0, w')"
  shows "load_seen_events w \<subseteq> load_seen_events w'
         \<and> (\<exists>new_events seen_ids.
               scrape_events cfg L page w = Inr (new_events, seen_ids)
               \<and> load_seen_events w' = load_seen_events w \<union> event_id ` set new_events)"
proof -
  from main_ok_scraped [OF assms] obtain new_events seen_ids where
    sc: "scrape_events cfg L page w = Inr (new_events, seen_ids)"
    by blast
  from scrape_events_Inr [OF sc] have seen: "seen_ids = load_seen_events w"
    by blast
  from assms have "fst (main cfg L page w) = 0" and "snd (main cfg L page w) = w'"
    by simp_all
  with main_state_file [OF sc] have
    "state_file w' = Some (Ids (sorted_list_of_set (seen_ids \<union> event_id ` set new_events)))"
    by simp
  moreover have "finite (seen_ids \<union> event_id ` set new_events)"
    using seen by (simp add: finite_load_seen_events)
  ultimately have "load_seen_events w' = load_seen_events w \<union> event_id ` set new_events"
    using seen by (simp add: load_seen_events_def)
  with sc show ?thesis by blast
qed

theorem seen_set_grows_witness:
  "load_seen_events example_world
     \<subseteq> load_seen_events (snd (main example_config example_pylib (Inr example_soup) example_world))
   \<and> (\<exists>new_events seen_ids.
         scrape_events example_config example_pylib (Inr example_soup) example_world
           = Inr (new_events, seen_ids)
         \<and> load_seen_events (snd (main example_config example_pylib (Inr example_soup) example_world))
             = load_seen_events example_world \<union> event_id ` set new_events)"
proof -
  have "main example_config example_pylib (Inr example_soup) example_world
          = (0, snd (main example_config example_pylib (Inr example_soup) example_world))"
    using example_main_status by (simp add: prod_eq_iff)
  then show ?thesis
    by (rule seen_set_grows)
qed

subsection \<open>Exit status\<close>

text \<open>
  Claim C8. Take a run that gets as far as the list of new events. If there are new events
  and writing the feed file fails, or if writing the state file fails, the exit status is 1;
  if every write the run attempts succeeds, also when there is no new event, the exit
  status is 0.
\<close>

theorem write_failure_exit_status:
  assumes "scrape_events cfg L page w = Inr (new_events, seen_ids)"
  shows "(new_events \<noteq> [] \<and> feed_write w = WriteFails left \<longrightarrow> fst (main cfg L page w) = 1)
       \<and> (state_write w = WriteFails left' \<longrightarrow> fst (main cfg L page w) = 1)
       \<and> ((new_events = [] \<or> feed_write w = WriteOk) \<and> state_write w = WriteOk
            \<longrightarrow> fst (main cfg L page w) = 0)"
  by (simp add: main_status [OF assms])

theorem write_failure_exit_status_witness:
  "fst (main example_config example_pylib (Inr example_soup)
          (example_world\<lparr>feed_write := WriteFails None\<rparr>)) = 1
   \<and> fst (main example_config example_pylib (Inr example_soup)
          (example_world\<lparr>state_write := WriteFails None\<rparr>)) = 1
   \<and> fst (main example_config example_pylib (Inr example_soup) example_world) = 0"
proof -
  have "scrape_events example_config example_pylib (Inr example_soup)
             (example_world\<lparr>feed_write := WriteFails None\<rparr>)
        = scrape_events example_config example_pylib (Inr example_soup) example_world"
    by (rule scrape_events_state_file) simp
  with example_scrape
  have a: "scrape_events example_config example_pylib (Inr example_soup)
             (example_world\<lparr>feed_write := WriteFails None\<rparr>)
           = Inr ([example_event, example_event'], {})"
    by simp
  have "scrape_events example_config example_pylib (Inr example_soup)
             (example_world\<lparr>state_write := WriteFails None\<rparr>)
        = scrape_events example_config example_pylib (Inr example_soup) example_world"
    by (rule scrape_events_state_file) simp
  with example_scrape
  have b: "scrape_events example_config example_pylib (Inr example_soup)
             (example_world\<lparr>state_write := WriteFails None\<rparr>)
           = Inr ([example_event, example_event'], {})"
    by simp
  have c: "feed_write example_world = WriteOk" "state_write example_world = WriteOk"
    by (simp_all add: example_world_def)
  show ?thesis
    using write_failure_exit_status [OF a, of None None]
      write_failure_exit_status [OF b, of None None]
      write_failure_exit_status [OF example_scrape, of None None] c
    by simp
qed

subsection \<open>A run without new events\<close>

text \<open>
  Claim C9. \<open>update_rss_feed\<close> with an empty list returns at once and leaves the world as it
  is. A run that finds no new event leaves the feed file as it was (absent if it was
  absent) and still saves the seen set: when the write succeeds the state file holds the
  sorted seen set. After every run that ends with exit status 0 the state file exists and
  holds a list of identities.
\<close>

theorem no_new_events_run:
  "update_rss_feed cfg [] w = (None, w)
   \<and> (scrape_events cfg L page w = Inr ([], seen_ids) \<longrightarrow>
        feed_file (snd (main cfg L page w)) = feed_file w
        \<and> (state_write w = WriteOk \<longrightarrow>
             fst (main cfg L page w) = 0
             \<and> state_file (snd (main cfg L page w)) = Some (Ids (sorted_list_of_set seen_ids))))
   \<and> (fst (main cfg L page w) = 0 \<longrightarrow>
        (\<exists>ids. state_file (snd (main cfg L page w)) = Some (Ids ids)))"
proof (intro conjI impI)
  show "update_rss_feed cfg [] w = (None, w)"
    by (simp add: update_rss_feed_def)
next
  assume "scrape_events cfg L page w = Inr ([], seen_ids)"
  then show "feed_file (snd (main cfg L page w)) = feed_file w"
    by (rule main_feed_file_no_new)
next
  assume sc: "scrape_events cfg L page w = Inr ([], seen_ids)" and ok: "state_write w = WriteOk"
  from main_status [OF sc] ok show st: "fst (main cfg L page w) = 0"
    by simp
  from main_state_file [OF sc st]
  show "state_file (snd (main cfg L page w)) = Some (Ids (sorted_list_of_set seen_ids))"
    by simp
next
  assume st: "fst (main cfg L page w) = 0"
  then have "main cfg L page w = (0, snd (main cfg L page w))"
    by (simp add: prod_eq_iff)
  from main_ok_scraped [OF this] obtain new_events seen_ids' where
    "scrape_events cfg L page w = Inr (new_events, seen_ids')"
    by blast
  from main_state_file [OF this st]
  show "\<exists>ids. state_file (snd (main cfg L page w)) = Some (Ids ids)"
    by blast
qed

lemma example_scrape_again:
  "scrape_events example_config example_pylib (Inr example_soup)
     (example_world\<lparr>state_file := Some (Ids [''https://x.org/courses/more.html'',
                                             ''https://x.org/reg'']),
                    feed_file := Some ''<rss/>''\<rparr>)
     = Inr ([], {''https://x.org/courses/more.html'', ''https://x.org/reg''})"
  by code_simp

theorem no_new_events_run_witness:
  "feed_file (snd (main example_config example_pylib (Inr example_soup)
      (example_world\<lparr>state_file := Some (Ids [''https://x.org/courses/more.html'',
                                              ''https://x.org/reg'']),
                     feed_file := Some ''<rss/>''\<rparr>))) = Some ''<rss/>''
   \<and> fst (main example_config example_pylib (Inr example_soup)
      (example_world\<lparr>state_file := Some (Ids [''https://x.org/courses/more.html'',
                                              ''https://x.org/reg'']),
                     feed_file := Some ''<rss/>''\<rparr>)) = 0"
  using no_new_events_run [of example_config
      "example_world\<lparr>state_file := Some (Ids [''https://x.org/courses/more.html'',
                                              ''https://x.org/reg'']),
                     feed_file := Some ''<rss/>''\<rparr>"
      example_pylib "Inr example_soup"
      "{''https://x.org/courses/more.html'', ''https://x.org/reg''}"]
    example_scrape_again
  by (simp add: example_world_def)

subsection \<open>Extraction of one event\<close>





lemma extract_events_append:
  "extract_events cfg L S (xs @ ys) = extract_events cfg L S xs @ extract_events cfg L S ys"
  by (simp add: extract_events_def)

lemma extract_events_single:
  "extract_events cfg L S [n] =
     (case extract_event_data cfg L S n (TARGET_URL cfg) of None \<Rightarrow> [] | Some ev \<Rightarrow> [ev])"
  by (simp add: extract_events_def)

lemma example_node_20:
  "extract_event_data_try example_config example_pylib example_soup 20
     (TARGET_URL example_config) = Inr None"
  by code_simp

lemma example_node_30:
  "extract_event_data_try example_config example_pylib example_soup 30
     (TARGET_URL example_config) = Inl ValueError"
  by code_simp


text \<open>
  Claim C7. A link element without an \<open>href\<close>, or with an empty one, gives \<open>None\<close>. Whatever
  exception the body of \<open>extract_event_data\<close> raises (reading the \<open>href\<close>, normalising it, or
  any later step), the result is \<open>None\<close> as well. A link element with the result \<open>None\<close>
  contributes nothing to the list of events and does not disturb the elements before and
  after it; and once \<open>soup.select\<close> has returned the link elements, \<open>scrape_events\<close> returns
  normally, whatever the elements are.
\<close>

theorem extract_absent_not_error:
  "(get S n ''href'' = Inr None \<or> get S n ''href'' = Inr (Some '''')
      \<longrightarrow> extract_event_data cfg L S n base = None)
   \<and> (extract_event_data_try cfg L S n base = Inl e
      \<longrightarrow> extract_event_data cfg L S n base = None)
   \<and> (get S n ''href'' = Inl e \<longrightarrow> extract_event_data cfg L S n base = None)
   \<and> (get S n ''href'' = Inr (Some h) \<and> h \<noteq> [] \<and> normalize_url L h base = Inl e
      \<longrightarrow> extract_event_data cfg L S n base = None)
   \<and> (extract_event_data cfg L S n (TARGET_URL cfg) = None
      \<longrightarrow> extract_events cfg L S (before @ [n] @ after)
          = extract_events cfg L S before @ extract_events cfg L S after)
   \<and> (select S (REG_LINK_SELECTOR cfg) = Inr link_elements
      \<longrightarrow> (\<exists>new_events seen_ids.
             scrape_events cfg L (Inr S) w = Inr (new_events, seen_ids)))"
proof (intro conjI impI)
  assume "get S n ''href'' = Inr None \<or> get S n ''href'' = Inr (Some '''')"
  then show "extract_event_data cfg L S n base = None"
    by (auto simp: extract_event_data_def extract_event_data_try_def)
next
  assume "extract_event_data_try cfg L S n base = Inl e"
  then show "extract_event_data cfg L S n base = None"
    by (simp add: extract_event_data_def)
next
  assume "get S n ''href'' = Inl e"
  then show "extract_event_data cfg L S n base = None"
    by (simp add: extract_event_data_def extract_event_data_try_def)
next
  assume "get S n ''href'' = Inr (Some h) \<and> h \<noteq> [] \<and> normalize_url L h base = Inl e"
  then show "extract_event_data cfg L S n base = None"
    by (simp add: extract_event_data_def extract_event_data_try_def)
next
  assume "extract_event_data cfg L S n (TARGET_URL cfg) = None"
  then show "extract_events cfg L S (before @ [n] @ after)
               = extract_events cfg L S before @ extract_events cfg L S after"
    using extract_events_append [of cfg L S "[n]" after]
    by (simp add: extract_events_append extract_events_single)
next
  assume "select S (REG_LINK_SELECTOR cfg) = Inr link_elements"
  then show "\<exists>new_events seen_ids. scrape_events cfg L (Inr S) w = Inr (new_events, seen_ids)"
    by (simp add: scrape_events_select)
qed

theorem extract_absent_not_error_witness:
  "extract_event_data example_config example_pylib example_soup 20 (TARGET_URL example_config)
     = None
   \<and> extract_event_data example_config example_pylib example_soup 30 (TARGET_URL example_config)
     = None
   \<and> extract_events example_config example_pylib example_soup ([10, 20] @ [30] @ [40])
     = extract_events example_config example_pylib example_soup [10, 20]
       @ extract_events example_config example_pylib example_soup [40]"
proof -
  have h20: "get example_soup 20 ''href'' = Inr None"
    by (simp add: example_soup_def)
  note inst20 = extract_absent_not_error [of example_soup 20 example_config example_pylib
      "TARGET_URL example_config" ValueError "''''" "[]" "[]" "[]" example_world]
  note inst30 = extract_absent_not_error [of example_soup 30 example_config example_pylib
      "TARGET_URL example_config" ValueError "''''" "[10, 20]" "[40]" "[]" example_world]
  from inst20 h20
  have a: "extract_event_data example_config example_pylib example_soup 20
             (TARGET_URL example_config) = None"
    by blast
  from inst30 example_node_30
  have b: "extract_event_data example_config example_pylib example_soup 30
             (TARGET_URL example_config) = None"
    by blast
  with inst30
  have "extract_events example_config example_pylib example_soup ([10, 20] @ [30] @ [40])
          = extract_events example_config example_pylib example_soup [10, 20]
            @ extract_events example_config example_pylib example_soup [40]"
    by blast
  with a b show ?thesis by blast
qed




subsection \<open>Escaping in feed entries\<close>

lemma replace_chr_append:
  "replace_chr b new (xs @ ys) = replace_chr b new xs @ replace_chr b new ys"
  by (simp add: replace_chr_def)

lemma escape_Cons: "escape (c # s) = entity_of c @ escape s"
  by (simp add: escape_def replace_chr_def entity_of_def)

lemma escape_entities: "escape s = concat (map entity_of s)"
  by (induction s) (simp_all add: escape_Cons, simp add: escape_def replace_chr_def)

lemma escape_no_angle: "CHR ''<'' \<notin> set (escape s)" "CHR ''>'' \<notin> set (escape s)"
  by (auto simp: escape_entities entity_of_def split: if_splits)

lemma digit_range: "digit n \<in> set ''0123456789''"
  unfolding digit_def by (rule nth_mem) simp

lemma digit_no_angle: "digit n \<noteq> CHR ''<''" "digit n \<noteq> CHR ''>''"
  using digit_range [of n] by auto

lemma day_abbr_no_angle: "CHR ''<'' \<notin> set (day_abbr d)" "CHR ''>'' \<notin> set (day_abbr d)"
  by (cases d; simp)+

lemma month_abbr_no_angle: "CHR ''<'' \<notin> set (month_abbr m)" "CHR ''>'' \<notin> set (month_abbr m)"
  by (cases m; simp)+

lemma strftime_no_angle: "CHR ''<'' \<notin> set (strftime t)" "CHR ''>'' \<notin> set (strftime t)"
  using digit_no_angle [symmetric]
  by (simp_all add: strftime_def digits2_def digits4_def day_abbr_no_angle month_abbr_no_angle)





subsection \<open>Reading a text file\<close>

lemma universal_newlines_Cons:
  "c \<noteq> CHR 0x0D \<Longrightarrow> universal_newlines (c # s) = c # universal_newlines s"
  by (cases s) simp_all

lemma universal_newlines_before:
  "b = [] \<or> hd b \<noteq> CHR 0x0A \<Longrightarrow>
     universal_newlines (a @ b) = universal_newlines a @ universal_newlines b"
proof (induction a rule: universal_newlines.induct)
  case 1
  show ?case by simp
next
  case (2 c)
  then show ?case by (cases b) (auto simp: universal_newlines_Cons)
next
  case (3 c d s)
  then show ?case by simp
qed

lemma universal_newlines_after:
  "a = [] \<or> last a \<noteq> CHR 0x0D \<Longrightarrow>
     universal_newlines (a @ b) = universal_newlines a @ universal_newlines b"
proof (induction a rule: universal_newlines.induct)
  case 1
  show ?case by simp
next
  case (2 c)
  then show ?case by (simp add: universal_newlines_Cons)
next
  case (3 c d s)
  then show ?case by (cases "s = []") (auto simp: universal_newlines_Cons)
qed

lemma universal_newlines_id: "CHR 0x0D \<notin> set s \<Longrightarrow> universal_newlines s = s"
  by (induction s) (auto simp: universal_newlines_Cons)

lemma universal_newlines_no_CR: "CHR 0x0D \<notin> set (universal_newlines s)"
  by (induction s rule: universal_newlines.induct) auto

lemma universal_newlines_idem:
  "universal_newlines (universal_newlines s) = universal_newlines s"
  by (simp add: universal_newlines_id universal_newlines_no_CR)

lemma universal_newlines_escape:
  "universal_newlines (escape s) = escape (universal_newlines s)"
proof (induction s rule: universal_newlines.induct)
  case 1
  show ?case by (simp add: escape_def replace_chr_def)
next
  case (2 c)
  show ?case
    by (simp add: escape_Cons entity_of_def universal_newlines_Cons)
      (simp add: escape_def replace_chr_def)
next
  case (3 c d s)
  have other: "universal_newlines (entity_of c @ r) = entity_of c @ universal_newlines r"
    if "c \<noteq> CHR 0x0D" for r
    using that by (simp add: entity_of_def universal_newlines_Cons)
  show ?case
  proof (cases "c = CHR 0x0D")
    case False
    with 3 show ?thesis
      by (simp add: escape_Cons [of c] other)
  next
    case True
    show ?thesis
    proof (cases "d = CHR 0x0A")
      case True
      with 3 \<open>c = CHR 0x0D\<close> show ?thesis
        by (simp add: escape_Cons entity_of_def)
    next
      case False
      then have "hd (escape (d # s)) \<noteq> CHR 0x0A" and "escape (d # s) \<noteq> []"
        by (auto simp: escape_Cons entity_of_def)
      then have "universal_newlines (CHR 0x0D # escape (d # s))
                   = CHR 0x0A # universal_newlines (escape (d # s))"
        by (cases "escape (d # s)") simp_all
      moreover have "escape (CHR 0x0A # r) = CHR 0x0A # escape r" for r
        by (simp add: escape_Cons entity_of_def)
      ultimately show ?thesis
        using 3 \<open>c = CHR 0x0D\<close> False
        by (simp add: escape_Cons [of "CHR 0x0D"] entity_of_def)
    qed
  qed
qed

lemma strftime_no_CR: "CHR 0x0D \<notin> set (strftime t)"
proof -
  have "CHR 0x0D \<noteq> digit n" for n
    using digit_range [of n] by auto
  moreover have "CHR 0x0D \<notin> set (day_abbr d)" for d
    by (cases d) simp_all
  moreover have "CHR 0x0D \<notin> set (month_abbr m)" for m
    by (cases m) simp_all
  ultimately show ?thesis
    by (simp add: strftime_def digits2_def digits4_def)
qed

subsection \<open>Searching and splitting texts\<close>

lemma prefix_append_cases: "prefix sep (xs @ r) \<Longrightarrow> prefix sep xs \<or> prefix xs sep"
  unfolding prefix_def by (auto simp: append_eq_append_conv2)

lemma passes_find_sub:
  "passes sep a \<Longrightarrow> find_sub sep (a @ r) = map_option ((+) (length a)) (find_sub sep r)"
proof (induction a)
  case Nil
  show ?case by (cases "find_sub sep r") simp_all
next
  case (Cons c a)
  then have "\<not> prefix sep (c # a @ r)"
    using prefix_append_cases [of sep "c # a" r] by auto
  with Cons show ?case
    by (cases "find_sub sep r") simp_all
qed

lemma passes_append: "passes sep a \<Longrightarrow> passes sep b \<Longrightarrow> passes sep (a @ b)"
proof (induction a)
  case Nil
  then show ?case by simp
next
  case (Cons c a)
  have "\<not> prefix sep (c # a @ b)"
    using Cons.prems(1) prefix_append_cases [of sep "c # a" b] by auto
  moreover have "\<not> prefix (c # a @ b) sep"
    using Cons.prems(1) append_prefixD [of "c # a" b sep] by auto
  ultimately show ?case
    using Cons by simp
qed

lemma passes_clean:
  "s0 \<notin> set v \<Longrightarrow> passes (s0 # sep') (v @ rest) = passes (s0 # sep') rest"
  by (induction v) auto

lemma passes_not_found: "passes sep a \<Longrightarrow> sep \<noteq> [] \<Longrightarrow> find_sub sep a = None"
  using passes_find_sub [of sep a "[]"] by simp

lemma find_sub_here: "sep \<noteq> [] \<Longrightarrow> find_sub sep (sep @ r) = Some 0"
  by (cases sep) simp_all

lemma split_str_passes:
  assumes "passes sep a" and "sep \<noteq> []"
  shows "split_str sep (a @ sep @ r) = a # split_str sep r"
proof -
  have "find_sub sep (a @ sep @ r) = Some (length a)"
    using assms by (simp add: passes_find_sub find_sub_here)
  then show ?thesis
    using assms(2) by (subst split_str.simps) simp
qed

lemma split_str_not_found: "find_sub sep s = None \<Longrightarrow> split_str sep s = [s]"
  by (subst split_str.simps) simp

lemma split_str_bodies:
  assumes "\<forall>a \<in> set bodies. passes sep a" and "passes sep tail" and "sep \<noteq> []"
  shows "split_str sep (concat (map (\<lambda>a. a @ sep) bodies) @ tail) = bodies @ [tail]"
  using assms(1)
proof (induction bodies)
  case Nil
  show ?case
    using assms(2,3) by (simp add: split_str_not_found passes_not_found)
next
  case (Cons a bodies)
  then show ?case
    using assms(3) by (simp add: split_str_passes)
qed

lemma find_sub_append: "find_sub sub a = Some k \<Longrightarrow> find_sub sub (a @ r) = Some k"
proof (induction a arbitrary: k)
  case Nil
  then show ?case by (cases r) (simp_all split: if_splits)
next
  case (Cons c a)
  show ?case
  proof (cases "prefix sub (c # a)")
    case True
    then have "prefix sub (c # a @ r)"
      using prefix_prefix [of sub "c # a" r] by simp
    with True Cons.prems show ?thesis by simp
  next
    case False
    with Cons.prems obtain j where j: "find_sub sub a = Some j" "k = Suc j"
      by auto
    have "prefix (c # a) sub"
      if "prefix sub (c # a @ r)"
      using that False prefix_append_cases [of sub "c # a" r] by auto
    then have "\<not> prefix sub (c # a @ r)"
      using find_sub_bound [OF j(1)] prefix_length_le [of "c # a" sub] by fastforce
    with Cons.IH [OF j(1)] j(2) show ?thesis by simp
  qed
qed

subsection \<open>The items of a rendered feed\<close>

lemma generate_rss_item_body:
  "fst (generate_rss_item event w) = rss_item_body event (clock w (ticks w)) @ ''</item>''"
  by (simp add: generate_rss_item_def rss_item_body_def utcnow_def Let_def)

lemma rss_item_body_passes: "passes ''</item>'' (rss_item_body event now)"
  by (simp add: rss_item_body_def passes_clean escape_no_angle strftime_no_angle)

lemma rss_item_body_drop2:
  \<open>drop 2 (rss_item_body event now) =
     ''<item>\<newline>    <title>'' @ escape (event_title event)
     @ ''</title>\<newline>    <link>'' @ escape (event_link event)
     @ ''</link>\<newline>    <description>''
     @ escape (''Registration Date: '' @ escape (event_date event))
     @ ''</description>\<newline>    <pubDate>'' @ strftime now
     @ ''</pubDate>\<newline>    <guid isPermaLink="true">'' @ escape (event_link event)
     @ ''</guid>\<newline>  ''\<close>
  by (simp add: rss_item_body_def)

lemma rss_item_body_drop2_passes: "passes ''</item>'' (drop 2 (rss_item_body event now))"
  unfolding rss_item_body_drop2
  by (simp add: passes_clean escape_no_angle strftime_no_angle)

lemma rss_item_body_from_item:
  "from_item (rss_item_body event now) = drop 2 (rss_item_body event now)"
  "from_item (drop 2 (rss_item_body event now)) = drop 2 (rss_item_body event now)"
proof -
  have "find_sub ''<item>'' (rss_item_body event now) = Some 2"
    by (simp add: rss_item_body_def)
  then show "from_item (rss_item_body event now) = drop 2 (rss_item_body event now)"
    by (simp add: from_item_def)
  have "find_sub ''<item>'' (drop 2 (rss_item_body event now)) = Some 0"
    unfolding rss_item_body_drop2 by simp
  then show "from_item (drop 2 (rss_item_body event now)) = drop 2 (rss_item_body event now)"
    by (simp add: from_item_def)
qed

lemma feed_head_passes:
  "passes ''</item>'' (feed_head cfg now)" "passes ''<item>'' (feed_head cfg now)"
  by (simp_all add: feed_head_def passes_clean escape_no_angle strftime_no_angle)

lemma feed_tail_passes: "passes ''</item>'' feed_tail"
  by (simp add: feed_tail_def)

lemma universal_newlines_then:
  "c \<noteq> CHR 0x0A \<Longrightarrow>
     universal_newlines (v @ c # rest) = universal_newlines v @ universal_newlines (c # rest)"
  by (rule universal_newlines_before) simp

lemma universal_newlines_item_body:
  "universal_newlines (rss_item_body event now)
     = rss_item_body (event\<lparr>event_link := universal_newlines (event_link event),
                            event_title := universal_newlines (event_title event),
                            event_date := universal_newlines (event_date event)\<rparr>) now"
  by (simp add: rss_item_body_def universal_newlines_Cons universal_newlines_then
      universal_newlines_escape universal_newlines_id strftime_no_CR)

lemma universal_newlines_item_body_drop2:
  "universal_newlines (drop 2 (rss_item_body event now))
     = drop 2 (universal_newlines (rss_item_body event now))"
  by (simp add: rss_item_body_def universal_newlines_Cons)

lemma universal_newlines_feed_head:
  "universal_newlines (feed_head cfg now)
     = feed_head (cfg\<lparr>TARGET_URL := universal_newlines (TARGET_URL cfg)\<rparr>) now"
  by (simp add: feed_head_def universal_newlines_Cons universal_newlines_then
      universal_newlines_escape universal_newlines_id strftime_no_CR)

lemma feed_head_last: "feed_head cfg now \<noteq> [] \<and> last (feed_head cfg now) \<noteq> CHR 0x0D"
  by (simp add: feed_head_def)

lemma universal_newlines_closing:
  "universal_newlines (a @ ''</item>'' @ r)
     = universal_newlines a @ ''</item>'' @ universal_newlines r"
proof -
  have "universal_newlines (a @ ''</item>'' @ r)
          = universal_newlines a @ universal_newlines (''</item>'' @ r)"
    by (rule universal_newlines_before) simp
  then show ?thesis
    by (simp add: universal_newlines_Cons)
qed

lemma universal_newlines_items:
  "universal_newlines (concat (map (\<lambda>a. a @ ''</item>'') bodies) @ feed_tail)
     = concat (map (\<lambda>a. universal_newlines a @ ''</item>'') bodies) @ feed_tail"
proof (induction bodies)
  case Nil
  show ?case by (simp add: feed_tail_def universal_newlines_Cons)
next
  case (Cons a bodies)
  have "universal_newlines (concat (map (\<lambda>a. a @ ''</item>'') (a # bodies)) @ feed_tail)
          = universal_newlines (a @ ''</item>''
              @ (concat (map (\<lambda>a. a @ ''</item>'') bodies) @ feed_tail))"
    by simp
  also have "\<dots> = universal_newlines a @ ''</item>''
              @ universal_newlines (concat (map (\<lambda>a. a @ ''</item>'') bodies) @ feed_tail)"
    by (rule universal_newlines_closing)
  finally show ?case
    using Cons.IH by simp
qed

lemma universal_newlines_feed:
  "universal_newlines (feed_head cfg now @ concat (map (\<lambda>a. a @ ''</item>'') bodies) @ feed_tail)
     = feed_head (cfg\<lparr>TARGET_URL := universal_newlines (TARGET_URL cfg)\<rparr>) now
       @ concat (map (\<lambda>a. universal_newlines a @ ''</item>'') bodies) @ feed_tail"
proof -
  have "universal_newlines (feed_head cfg now
            @ (concat (map (\<lambda>a. a @ ''</item>'') bodies) @ feed_tail))
          = universal_newlines (feed_head cfg now)
            @ universal_newlines (concat (map (\<lambda>a. a @ ''</item>'') bodies) @ feed_tail)"
    using feed_head_last [of cfg now] by (intro universal_newlines_after) simp
  then show ?thesis
    by (simp add: universal_newlines_feed_head universal_newlines_items)
qed

lemma existing_items_of_feed:
  assumes head: "passes ''</item>'' head" "passes ''<item>'' head"
    and bodies: "\<forall>a \<in> set bodies. passes ''</item>'' a \<and> (\<exists>k. find_sub ''<item>'' a = Some k)"
  shows "existing_items_of (head @ concat (map (\<lambda>a. a @ ''</item>'') bodies) @ feed_tail)
           = map (\<lambda>a. from_item a @ ''</item>'') bodies"
proof (cases bodies)
  case Nil
  have "passes ''</item>'' (head @ feed_tail)"
    using head(1) feed_tail_passes by (rule passes_append)
  then have "split_str ''</item>'' (head @ feed_tail) = [head @ feed_tail]"
    by (simp add: split_str_not_found passes_not_found)
  with Nil show ?thesis
    by (simp add: existing_items_of_def)
next
  case (Cons a rest)
  let ?item = "\<lambda>part. case find_sub ''<item>'' part of
                         None \<Rightarrow> []
                       | Some item_start \<Rightarrow> [drop item_start part @ ''</item>'']"
  from bodies Cons have a: "passes ''</item>'' a" and rest: "\<forall>b \<in> set rest. passes ''</item>'' b"
    by simp_all
  from bodies Cons obtain k where k: "find_sub ''<item>'' a = Some k"
    by auto
  have ha: "passes ''</item>'' (head @ a)"
    using head(1) a by (rule passes_append)
  have "split_str ''</item>'' ((head @ a) @ ''</item>''
            @ (concat (map (\<lambda>a. a @ ''</item>'') rest) @ feed_tail))
          = (head @ a) # split_str ''</item>'' (concat (map (\<lambda>a. a @ ''</item>'') rest) @ feed_tail)"
    using ha by (rule split_str_passes) simp
  also have "split_str ''</item>'' (concat (map (\<lambda>a. a @ ''</item>'') rest) @ feed_tail)
               = rest @ [feed_tail]"
    using rest feed_tail_passes by (rule split_str_bodies) simp
  finally have parts:
    "split_str ''</item>'' (head @ concat (map (\<lambda>a. a @ ''</item>'') bodies) @ feed_tail)
       = (head @ a) # rest @ [feed_tail]"
    by (simp add: Cons)
  have first: "?item (head @ a) = [from_item a @ ''</item>'']"
    using k by (simp add: passes_find_sub [OF head(2)] from_item_def)
  have others: "?item b = [from_item b @ ''</item>'']" if "b \<in> set rest" for b
  proof -
    from bodies Cons that obtain j where "find_sub ''<item>'' b = Some j"
      by auto
    then show ?thesis by (simp add: from_item_def)
  qed
  have "concat (map ?item rest) = map (\<lambda>a. from_item a @ ''</item>'') rest"
    using others by (induction rest) simp_all
  with first show ?thesis
    unfolding existing_items_of_def Let_def parts
    by (simp add: Cons butlast_append)
qed

lemma generate_rss_items_bodies:
  "\<exists>bodies. fst (generate_rss_items events w) = map (\<lambda>a. a @ ''</item>'') bodies
     \<and> length bodies = length events
     \<and> (\<forall>a \<in> set bodies. \<exists>event now. a = rss_item_body event now)"
proof (induction events arbitrary: w)
  case Nil
  show ?case by simp
next
  case (Cons event events)
  from Cons.IH [of "snd (generate_rss_item event w)"] obtain bodies where
    b: "fst (generate_rss_items events (snd (generate_rss_item event w)))
          = map (\<lambda>a. a @ ''</item>'') bodies"
       "length bodies = length events"
       "\<forall>a \<in> set bodies. \<exists>event now. a = rss_item_body event now"
    by blast
  have "fst (generate_rss_items (event # events) w)
          = map (\<lambda>a. a @ ''</item>'') (rss_item_body event (clock w (ticks w)) # bodies)"
    using b(1) by (simp add: split_def Let_def generate_rss_item_body)
  moreover have "length (rss_item_body event (clock w (ticks w)) # bodies)
                   = length (event # events)"
    using b(2) by simp
  moreover have "\<forall>a \<in> set (rss_item_body event (clock w (ticks w)) # bodies).
                   \<exists>event now. a = rss_item_body event now"
    using b(3) by auto
  ultimately show ?case by blast
qed

lemma rss_item_body_length: "2 \<le> length (rss_item_body event now)"
  by (simp add: rss_item_body_def)

lemma update_rss_feed_content:
  assumes "new_events \<noteq> []" and "feed_write w = WriteOk"
  shows "feed_file (snd (update_rss_feed cfg new_events w))
           = Some (feed_head cfg (clock w (ticks w + length new_events))
                   @ concat (fst (generate_rss_items (rev new_events) w) @ read_existing_items w)
                   @ feed_tail)"
  using assms
  by (simp add: update_rss_feed_def split_def Let_def utcnow_def generate_rss_items_world
      feed_head_def feed_tail_def)

lemma update_rss_feed_flags:
  "feed_read_fails (snd (update_rss_feed cfg new_events w)) = feed_read_fails w"
  "feed_write (snd (update_rss_feed cfg new_events w)) = feed_write w"
  by (simp_all add: update_rss_feed_def split_def Let_def utcnow_def generate_rss_items_world
      split: write_result.splits)

lemma find_item_in_body:
  "find_sub ''<item>'' (rss_item_body event now) = Some 2"
  "find_sub ''<item>'' (drop 2 (rss_item_body event now)) = Some 0"
  unfolding rss_item_body_drop2 by (simp_all add: rss_item_body_def)

lemma universal_newlines_closed:
  "universal_newlines (a @ ''</item>'') = universal_newlines a @ ''</item>''"
  using universal_newlines_closing [of a "[]"] by simp

lemma rendered_body_read:
  assumes "a = rss_item_body event now"
  shows "passes ''</item>'' (universal_newlines a)"
    and "\<exists>k. find_sub ''<item>'' (universal_newlines a) = Some k"
    and "from_item (universal_newlines a) @ ''</item>''
           = universal_newlines (drop 2 (a @ ''</item>''))"
proof -
  show "passes ''</item>'' (universal_newlines a)"
    unfolding assms universal_newlines_item_body by (rule rss_item_body_passes)
  show "\<exists>k. find_sub ''<item>'' (universal_newlines a) = Some k"
    unfolding assms universal_newlines_item_body by (simp add: find_item_in_body)
  have "drop 2 (a @ ''</item>'') = drop 2 a @ ''</item>''"
    using rss_item_body_length [of event now] by (simp add: assms)
  then have "universal_newlines (drop 2 (a @ ''</item>''))
          = drop 2 (universal_newlines a) @ ''</item>''"
    by (simp add: assms universal_newlines_closed universal_newlines_item_body_drop2)
  then show "from_item (universal_newlines a) @ ''</item>''
           = universal_newlines (drop 2 (a @ ''</item>''))"
    unfolding assms universal_newlines_item_body by (simp add: rss_item_body_from_item)
qed

lemma unindented_body_read:
  assumes "a = drop 2 (rss_item_body event now)"
  shows "passes ''</item>'' (universal_newlines a)"
    and "\<exists>k. find_sub ''<item>'' (universal_newlines a) = Some k"
    and "from_item (universal_newlines a) @ ''</item>'' = universal_newlines (a @ ''</item>'')"
proof -
  show "passes ''</item>'' (universal_newlines a)"
    unfolding assms universal_newlines_item_body_drop2 universal_newlines_item_body
    by (rule rss_item_body_drop2_passes)
  show "\<exists>k. find_sub ''<item>'' (universal_newlines a) = Some k"
    unfolding assms universal_newlines_item_body_drop2 universal_newlines_item_body
    by (simp add: find_item_in_body)
  show "from_item (universal_newlines a) @ ''</item>'' = universal_newlines (a @ ''</item>'')"
    unfolding assms universal_newlines_closed universal_newlines_item_body_drop2
      universal_newlines_item_body
    by (simp add: rss_item_body_from_item)
qed

lemma existing_items_of_round:
  assumes old: "\<forall>it \<in> set old. \<exists>event now. it = drop 2 (rss_item_body event now) @ ''</item>''"
  shows "existing_items_of (universal_newlines
           (feed_head cfg now @ concat (fst (generate_rss_items events w) @ old) @ feed_tail))
         = map (\<lambda>it. universal_newlines (drop 2 it)) (fst (generate_rss_items events w))
           @ map universal_newlines old"
proof -
  from generate_rss_items_bodies [of events w] obtain new_bodies where
    n: "fst (generate_rss_items events w) = map (\<lambda>a. a @ ''</item>'') new_bodies"
       "\<forall>a \<in> set new_bodies. \<exists>event now. a = rss_item_body event now"
    by blast
  from old have "\<exists>old_bodies. old = map (\<lambda>a. a @ ''</item>'') old_bodies
      \<and> (\<forall>a \<in> set old_bodies. \<exists>event now. a = drop 2 (rss_item_body event now))"
  proof (induction old)
    case Nil
    show ?case by simp
  next
    case (Cons it old)
    then obtain old_bodies where "old = map (\<lambda>a. a @ ''</item>'') old_bodies"
      and "\<forall>a \<in> set old_bodies. \<exists>event now. a = drop 2 (rss_item_body event now)"
      by auto
    moreover from Cons.prems obtain event now where
      "it = drop 2 (rss_item_body event now) @ ''</item>''"
      by auto
    ultimately have "it # old = map (\<lambda>a. a @ ''</item>'')
                                  (drop 2 (rss_item_body event now) # old_bodies)"
      and "\<forall>a \<in> set (drop 2 (rss_item_body event now) # old_bodies).
              \<exists>event now. a = drop 2 (rss_item_body event now)"
      by auto
    then show ?case
      by (intro exI [of _ "drop 2 (rss_item_body event now) # old_bodies"] conjI)
  qed
  then obtain old_bodies where
    o: "old = map (\<lambda>a. a @ ''</item>'') old_bodies"
       "\<forall>a \<in> set old_bodies. \<exists>event now. a = drop 2 (rss_item_body event now)"
    by blast
  let ?bodies = "map universal_newlines (new_bodies @ old_bodies)"
  have pass: "\<forall>a \<in> set ?bodies. passes ''</item>'' a \<and> (\<exists>k. find_sub ''<item>'' a = Some k)"
    using n(2) o(2) rendered_body_read(1,2) unindented_body_read(1,2) by auto
  have new: "map (\<lambda>a. from_item a @ ''</item>'') (map universal_newlines new_bodies)
               = map (\<lambda>it. universal_newlines (drop 2 it)) (fst (generate_rss_items events w))"
    unfolding n(1) using n(2) rendered_body_read(3) by auto
  have old': "map (\<lambda>a. from_item a @ ''</item>'') (map universal_newlines old_bodies)
                = map universal_newlines old"
    unfolding o(1) using o(2) unindented_body_read(3) by auto
  have "universal_newlines
           (feed_head cfg now @ concat (map (\<lambda>a. a @ ''</item>'') (new_bodies @ old_bodies))
             @ feed_tail)
         = feed_head (cfg\<lparr>TARGET_URL := universal_newlines (TARGET_URL cfg)\<rparr>) now
           @ concat (map (\<lambda>a. a @ ''</item>'') ?bodies) @ feed_tail"
    unfolding universal_newlines_feed by (simp add: comp_def)
  moreover have "existing_items_of
           (feed_head (cfg\<lparr>TARGET_URL := universal_newlines (TARGET_URL cfg)\<rparr>) now
             @ concat (map (\<lambda>a. a @ ''</item>'') ?bodies) @ feed_tail)
         = map (\<lambda>a. from_item a @ ''</item>'') ?bodies"
    using feed_head_passes pass by (rule existing_items_of_feed)
  ultimately show ?thesis
    using new old' by (simp add: n(1) o(1))
qed

lemma read_after_update:
  assumes old: "\<forall>it \<in> set (read_existing_items w).
                  (\<exists>event now. it = drop 2 (rss_item_body event now) @ ''</item>'')
                  \<and> universal_newlines it = it"
    and ok: "feed_write w = WriteOk"
    and w': "feed_file w' = feed_file (snd (update_rss_feed cfg new_events w))"
      "\<not> feed_read_fails w'"
    and same: "new_events = [] \<longrightarrow> read_existing_items w' = read_existing_items w"
  shows "read_existing_items w'
           = map (\<lambda>it. universal_newlines (drop 2 it))
               (fst (generate_rss_items (rev new_events) w))
             @ read_existing_items w"
proof (cases "new_events = []")
  case True
  with same show ?thesis by simp
next
  case False
  from update_rss_feed_content [OF False ok, of cfg] w'
  have "read_existing_items w'
          = existing_items_of (universal_newlines
              (feed_head cfg (clock w (ticks w + length new_events))
                @ concat (fst (generate_rss_items (rev new_events) w) @ read_existing_items w)
                @ feed_tail))"
    by (simp add: read_existing_items_def)
  moreover have "map universal_newlines (read_existing_items w) = read_existing_items w"
    using old by (simp add: map_idI)
  ultimately show ?thesis
    using existing_items_of_round [of "read_existing_items w" cfg
        "clock w (ticks w + length new_events)" "rev new_events" w] old
    by simp
qed

lemma generate_rss_items_length: "length (fst (generate_rss_items events w)) = length events"
  using generate_rss_items_bodies [of events w] by auto

lemma generate_rss_items_read:
  "\<forall>it \<in> set (map (\<lambda>it. universal_newlines (drop 2 it)) (fst (generate_rss_items events w))).
     (\<exists>event now. it = drop 2 (rss_item_body event now) @ ''</item>'')
     \<and> universal_newlines it = it"
proof -
  from generate_rss_items_bodies [of events w] obtain bodies where
    b: "fst (generate_rss_items events w) = map (\<lambda>a. a @ ''</item>'') bodies"
       "\<forall>a \<in> set bodies. \<exists>event now. a = rss_item_body event now"
    by blast
  have "(\<exists>event' now'. universal_newlines (drop 2 (a @ ''</item>''))
            = drop 2 (rss_item_body event' now') @ ''</item>'')
        \<and> universal_newlines (universal_newlines (drop 2 (a @ ''</item>'')))
            = universal_newlines (drop 2 (a @ ''</item>''))"
    if "a = rss_item_body event now" for a event now
  proof
    have "universal_newlines (drop 2 (a @ ''</item>''))
            = drop 2 (universal_newlines (rss_item_body event now)) @ ''</item>''"
      using rendered_body_read(3) [OF that] rss_item_body_from_item(1)
      by (simp add: that universal_newlines_item_body)
    then show "\<exists>event' now'. universal_newlines (drop 2 (a @ ''</item>''))
            = drop 2 (rss_item_body event' now') @ ''</item>''"
      unfolding universal_newlines_item_body by blast
    show "universal_newlines (universal_newlines (drop 2 (a @ ''</item>'')))
            = universal_newlines (drop 2 (a @ ''</item>''))"
      by (rule universal_newlines_idem)
  qed
  then show ?thesis
    unfolding b(1) using b(2) by auto
qed

text \<open>
  Claim C6. Start from a world without feed file, or with a feed file in which the program
  finds no item, and publish the events \<open>new1\<close>; then, in any world that holds the feed
  file so produced, can read it and can write it, publish the events \<open>new2\<close>. The entries of a feed are the items that the program itself finds when
  it reads the file (\<open>read_existing_items\<close>). After the first call the feed has one entry for
  each event of \<open>new1\<close>. After the second call it has as many entries as \<open>new1\<close> and \<open>new2\<close>
  have events together: first the entries rendered for \<open>new2\<close>, in reverse page order (the
  last event first), then the entries the feed had before, in their order; and when \<open>new2\<close>
  is not empty, the text of the file is the head of the feed, the items rendered for \<open>new2\<close>,
  the old entries, and the tail. An entry read back from the file is the rendered item
  without its two leading blanks, with the line ends of a text file.
\<close>

theorem feed_round_trip:
  assumes "\<forall>content. feed_file w0 = Some content
             \<longrightarrow> existing_items_of (universal_newlines content) = []"
    and "feed_write w0 = WriteOk"
    and "feed_file w1 = feed_file (snd (update_rss_feed cfg new1 w0))"
    and "\<not> feed_read_fails w1" and "feed_write w1 = WriteOk"
  shows "read_existing_items w1
           = map (\<lambda>it. universal_newlines (drop 2 it)) (fst (generate_rss_items (rev new1) w0))
       \<and> length (read_existing_items w1) = length new1
       \<and> read_existing_items (snd (update_rss_feed cfg' new2 w1))
           = map (\<lambda>it. universal_newlines (drop 2 it)) (fst (generate_rss_items (rev new2) w1))
             @ read_existing_items w1
       \<and> length (read_existing_items (snd (update_rss_feed cfg' new2 w1)))
           = length new2 + length new1
       \<and> (new2 \<noteq> [] \<longrightarrow>
            feed_file (snd (update_rss_feed cfg' new2 w1))
              = Some (feed_head cfg' (clock w1 (ticks w1 + length new2))
                      @ concat (fst (generate_rss_items (rev new2) w1) @ read_existing_items w1)
                      @ feed_tail))"
proof -
  have none: "read_existing_items w0 = []"
    using assms(1) by (simp add: read_existing_items_def split: option.splits)
  have "new1 = [] \<longrightarrow> read_existing_items w1 = read_existing_items w0"
    using assms(1,3,4)
    by (simp add: update_rss_feed_def read_existing_items_def split: option.splits)
  with read_after_update [of w0 w1 cfg new1] none assms(2-4)
  have first: "read_existing_items w1
      = map (\<lambda>it. universal_newlines (drop 2 it)) (fst (generate_rss_items (rev new1) w0))"
    by simp
  then have len1: "length (read_existing_items w1) = length new1"
    by (simp add: generate_rss_items_length)
  let ?w2 = "snd (update_rss_feed cfg' new2 w1)"
  have old: "\<forall>it \<in> set (read_existing_items w1).
               (\<exists>event now. it = drop 2 (rss_item_body event now) @ ''</item>'')
               \<and> universal_newlines it = it"
    unfolding first by (rule generate_rss_items_read)
  have "\<not> feed_read_fails ?w2"
    using assms(4) by (simp add: update_rss_feed_flags)
  moreover have "new2 = [] \<longrightarrow> read_existing_items ?w2 = read_existing_items w1"
    by (simp add: update_rss_feed_def)
  ultimately have second: "read_existing_items ?w2
      = map (\<lambda>it. universal_newlines (drop 2 it)) (fst (generate_rss_items (rev new2) w1))
        @ read_existing_items w1"
    using read_after_update [of w1 ?w2 cfg' new2] old assms(5) by simp
  then have len2: "length (read_existing_items ?w2) = length new2 + length new1"
    using len1 by (simp add: generate_rss_items_length)
  have "new2 \<noteq> [] \<longrightarrow>
          feed_file ?w2
            = Some (feed_head cfg' (clock w1 (ticks w1 + length new2))
                    @ concat (fst (generate_rss_items (rev new2) w1) @ read_existing_items w1)
                    @ feed_tail)"
    using update_rss_feed_content [of new2 w1 cfg'] assms(5) by simp
  with first len1 second len2 show ?thesis by simp
qed

theorem feed_round_trip_witness:
  "length (read_existing_items (snd (update_rss_feed example_config
         [example_event, example_event'] example_world))) = 2
   \<and> length (read_existing_items (snd (update_rss_feed example_config [example_event]
              (snd (update_rss_feed example_config [example_event, example_event']
                 example_world))))) = 3
   \<and> read_existing_items (snd (update_rss_feed example_config [example_event]
              (snd (update_rss_feed example_config [example_event, example_event']
                 example_world))))
       = map (\<lambda>it. universal_newlines (drop 2 it))
           (fst (generate_rss_items (rev [example_event])
              (snd (update_rss_feed example_config [example_event, example_event']
                 example_world))))
         @ read_existing_items (snd (update_rss_feed example_config
              [example_event, example_event'] example_world))"
proof -
  let ?w1 = "snd (update_rss_feed example_config [example_event, example_event'] example_world)"
  have h: "\<forall>content. feed_file example_world = Some content
             \<longrightarrow> existing_items_of (universal_newlines content) = []"
    "feed_write example_world = WriteOk"
    "feed_file ?w1 = feed_file ?w1" "\<not> feed_read_fails ?w1" "feed_write ?w1 = WriteOk"
    by (simp_all add: update_rss_feed_flags example_world_def)
  have inst:
    "read_existing_items ?w1
       = map (\<lambda>it. universal_newlines (drop 2 it))
           (fst (generate_rss_items (rev [example_event, example_event']) example_world))
     \<and> length (read_existing_items ?w1) = length [example_event, example_event']
     \<and> read_existing_items (snd (update_rss_feed example_config [example_event] ?w1))
         = map (\<lambda>it. universal_newlines (drop 2 it))
             (fst (generate_rss_items (rev [example_event]) ?w1))
           @ read_existing_items ?w1
     \<and> length (read_existing_items (snd (update_rss_feed example_config [example_event] ?w1)))
         = length [example_event] + length [example_event, example_event']
     \<and> ([example_event] \<noteq> [] \<longrightarrow>
          feed_file (snd (update_rss_feed example_config [example_event] ?w1))
            = Some (feed_head example_config (clock ?w1 (ticks ?w1 + length [example_event]))
                    @ concat (fst (generate_rss_items (rev [example_event]) ?w1)
                        @ read_existing_items ?w1)
                    @ feed_tail))"
    by (rule feed_round_trip [OF h])
  from inst have "length (read_existing_items ?w1) = length [example_event, example_event']"
    by blast
  then have a: "length (read_existing_items ?w1) = 2"
    by simp
  from inst
  have "length (read_existing_items (snd (update_rss_feed example_config [example_event] ?w1)))
         = length [example_event] + length [example_event, example_event']"
    by blast
  then have b: "length (read_existing_items
                  (snd (update_rss_feed example_config [example_event] ?w1))) = 3"
    by simp
  from inst
  have c: "read_existing_items (snd (update_rss_feed example_config [example_event] ?w1))
         = map (\<lambda>it. universal_newlines (drop 2 it))
             (fst (generate_rss_items (rev [example_event]) ?w1))
           @ read_existing_items ?w1"
    by blast
  from a b c show ?thesis
    by blast
qed

end
